theory Spec2Isabelle
  imports Main "HOL-Library.Sublist"
begin

section \<open>Strings and paths\<close>

text \<open>
  JavaScript strings are modelled as \<open>string\<close>. The three string primitives the
  services use are \<open>String.prototype.split\<close> with a one-character separator,
  \<open>Array.prototype.join\<close> and \<open>String.prototype.includes\<close>;
  \<open>startsWith\<close> is \<open>prefix\<close>.
\<close>

fun splitOn :: "char \<Rightarrow> string \<Rightarrow> string list" where
  "splitOn c [] = [[]]"
| "splitOn c (x # xs) =
     (if x = c then [] # splitOn c xs
      else (case splitOn c xs of [] \<Rightarrow> [[x]] | s # ss \<Rightarrow> (x # s) # ss))"

fun joinWith :: "string \<Rightarrow> string list \<Rightarrow> string" where
  "joinWith s [] = []"
| "joinWith s [x] = x"
| "joinWith s (x # y # ys) = x @ s @ joinWith s (y # ys)"

fun str_includes :: "string \<Rightarrow> string \<Rightarrow> bool" where
  "str_includes [] t = (t = [])"
| "str_includes (c # cs) t = (prefix t (c # cs) \<or> str_includes cs t)"

text \<open>
  \<open>path.normalize\<close> of Node.js (POSIX flavour) is a library function, not code of the
  repository. It is modelled by what its implementation computes: the path is cut at
  \<open>/\<close>, empty and \<open>.\<close> segments are dropped, a \<open>..\<close> segment removes the segment
  before it (when there is one that is not itself \<open>..\<close>) and is otherwise kept only for
  a relative path; the remaining segments are joined again, a leading and a trailing
  \<open>/\<close> are preserved, and the empty result is \<open>.\<close>.
\<close>

fun normalizeString :: "bool \<Rightarrow> string list \<Rightarrow> string list \<Rightarrow> string list" where
  "normalizeString allowAboveRoot res [] = res"
| "normalizeString allowAboveRoot res (s # ss) =
     (if s = [] \<or> s = ''.'' then normalizeString allowAboveRoot res ss
      else if s = ''..'' then
        (if res \<noteq> [] \<and> last res \<noteq> ''..'' then normalizeString allowAboveRoot (butlast res) ss
         else if allowAboveRoot then normalizeString allowAboveRoot (res @ [''..'']) ss
         else normalizeString allowAboveRoot res ss)
      else normalizeString allowAboveRoot (res @ [s]) ss)"

definition normalize_path :: "string \<Rightarrow> string" where
  "normalize_path path =
     (if path = [] then ''.''
      else
        let isAbsolute = (hd path = CHR ''/'');
            trailingSeparator = (last path = CHR ''/'');
            p = joinWith ''/'' (normalizeString (\<not> isAbsolute) [] (splitOn CHR ''/'' path))
        in if p = [] then (if isAbsolute then ''/'' else if trailingSeparator then ''./'' else ''.'')
           else (if isAbsolute then ''/'' else []) @ p @ (if trailingSeparator then ''/'' else []))"

section \<open>The path policy guard (fs-adapter.ts)\<close>

text \<open>The allow-list the constructor of \<open>FSAdapter\<close> installs.\<close>

definition allowedPaths :: "string list" where
  "allowedPaths =
     [''src/'', ''public/'', ''components/'', ''pages/'', ''styles/'', ''utils/'', ''hooks/'',
      ''services/'', ''types/'', ''tests/'', ''__tests__/'', ''docs/'', ''README.md'',
      ''package.json'', ''tsconfig.json'', ''vite.config.ts'', ''tailwind.config.js'',
      ''.env.example'']"

text \<open>
  \<open>isPathAllowed\<close> reads the field \<open>this.allowedPaths\<close>; the field is the first
  argument here.
\<close>

definition isPathAllowed :: "string list \<Rightarrow> string \<Rightarrow> bool" where
  "isPathAllowed allowed filePath =
     (let normalizedPath = normalize_path filePath in
      if str_includes normalizedPath ''..'' \<or> prefix ''/'' normalizedPath then False
      else list_ex (\<lambda>allowedPath. prefix allowedPath normalizedPath \<or> normalizedPath = allowedPath)
             allowed)"

section \<open>The filesystem adapter (fs-adapter.ts)\<close>

text \<open>
  The workspace is a store of regular files: a map from absolute path to content.
  This is the model of Node's \<open>fs\<close> module the adapter is read against: \<open>access\<close>,
  \<open>readFile\<close>, \<open>unlink\<close> and \<open>rename\<close> fail exactly when the file is missing,
  \<open>writeFile\<close> and \<open>mkdir\<close> (with \<open>recursive\<close>) always succeed. Directories,
  permissions and other I/O failures are not modelled; timestamps, log lines and emitted
  events are omitted throughout. A JavaScript \<open>Error\<close> is its message.
\<close>

type_synonym filesystem = "string \<rightharpoonup> string"

datatype error = Error string

fun message :: "error \<Rightarrow> string" where
  "message (Error m) = m"

text \<open>\<open>path.join(a, b)\<close> for two arguments: the non-empty ones joined by \<open>/\<close>, normalised.\<close>

definition path_join :: "string \<Rightarrow> string \<Rightarrow> string" where
  "path_join a b =
     (if a = [] \<and> b = [] then ''.''
      else if a = [] then normalize_path b
      else if b = [] then normalize_path a
      else normalize_path (a @ ''/'' @ b))"

text \<open>JavaScript truthiness of an optional string: \<open>undefined\<close> and \<open>""\<close> are falsy.\<close>

fun truthy :: "string option \<Rightarrow> bool" where
  "truthy None = False"
| "truthy (Some s) = (s \<noteq> [])"

text \<open>\<open>x || ''\<close> for an optional string \<open>x\<close>.\<close>

fun orEmpty :: "string option \<Rightarrow> string" where
  "orEmpty None = []"
| "orEmpty (Some s) = s"

text \<open>
  The adapter's methods take the workspace root (the field \<open>workspaceRoot\<close>) and the
  store; a method that writes returns the new store, or the error it throws. The
  allow-list is the one of the constructor.
\<close>

definition getAbsolutePath :: "string \<Rightarrow> string \<Rightarrow> error + string" where
  "getAbsolutePath root filePath =
     (if \<not> isPathAllowed allowedPaths filePath then Inl (Error (''Path not allowed: '' @ filePath))
      else Inr (path_join root filePath))"

definition exists :: "string \<Rightarrow> filesystem \<Rightarrow> string \<Rightarrow> bool" where
  "exists root fs filePath =
     (case getAbsolutePath root filePath of
        Inl _ \<Rightarrow> False
      | Inr absolutePath \<Rightarrow> fs absolutePath \<noteq> None)"

definition readFile :: "string \<Rightarrow> filesystem \<Rightarrow> string \<Rightarrow> error + string" where
  "readFile root fs filePath =
     (case getAbsolutePath root filePath of
        Inl _ \<Rightarrow> Inl (Error (''Failed to read file: '' @ filePath))
      | Inr absolutePath \<Rightarrow>
          (case fs absolutePath of
             None \<Rightarrow> Inl (Error (''Failed to read file: '' @ filePath))
           | Some content \<Rightarrow> Inr content))"

definition writeFile :: "string \<Rightarrow> filesystem \<Rightarrow> string \<Rightarrow> string \<Rightarrow> error + filesystem" where
  "writeFile root fs filePath content =
     (case getAbsolutePath root filePath of
        Inl _ \<Rightarrow> Inl (Error (''Failed to write file: '' @ filePath))
      | Inr absolutePath \<Rightarrow>
          (let tempPath = absolutePath @ ''.tmp'';
               fs1 = fs(tempPath \<mapsto> content)
           in Inr ((fs1(tempPath := None))(absolutePath \<mapsto> content))))"

definition deleteFile :: "string \<Rightarrow> filesystem \<Rightarrow> string \<Rightarrow> error + filesystem" where
  "deleteFile root fs filePath =
     (case getAbsolutePath root filePath of
        Inl _ \<Rightarrow> Inl (Error (''Failed to delete file: '' @ filePath))
      | Inr absolutePath \<Rightarrow>
          (case fs absolutePath of
             None \<Rightarrow> Inl (Error (''Failed to delete file: '' @ filePath))
           | Some _ \<Rightarrow> Inr (fs(absolutePath := None))))"

definition renameFile :: "string \<Rightarrow> filesystem \<Rightarrow> string \<Rightarrow> string \<Rightarrow> error + filesystem" where
  "renameFile root fs oldPath newPath =
     (case getAbsolutePath root oldPath of
        Inl _ \<Rightarrow> Inl (Error (''Failed to rename file: '' @ oldPath @ '' -> '' @ newPath))
      | Inr absoluteOldPath \<Rightarrow>
          (case getAbsolutePath root newPath of
             Inl _ \<Rightarrow> Inl (Error (''Failed to rename file: '' @ oldPath @ '' -> '' @ newPath))
           | Inr absoluteNewPath \<Rightarrow>
               (case fs absoluteOldPath of
                  None \<Rightarrow> Inl (Error (''Failed to rename file: '' @ oldPath @ '' -> '' @ newPath))
                | Some content \<Rightarrow> Inr ((fs(absoluteOldPath := None))(absoluteNewPath \<mapsto> content)))))"

subsection \<open>Batch operations\<close>





section \<open>The transaction service (txn.ts)\<close>

subsection \<open>Data\<close>

datatype FileOp = Create | Update | Delete | Rename

datatype ApplyMethod = Diff | ReplaceFile | InsertAtLine

text \<open>
  \<open>FileChange\<close> as the schema declares it. The field \<open>insertAtLine\<close> is
  \<open>insertAtLineNo\<close> here (the service has a method of the same name); it is a
  JavaScript number, modelled as an integer. The field \<open>file\<close> is \<open>c_file\<close>.
\<close>

record FileChange =
  c_file :: string
  op :: FileOp
  applyMethod :: ApplyMethod
  diff :: "string option"
  content :: "string option"
  newPath :: "string option"
  insertAtLineNo :: "int option"
  backup :: bool

text \<open>
  The options of an apply request, their fields with the prefix \<open>opt_\<close> (the service
  has a method \<open>createBackups\<close>); \<open>formatOnSave\<close> only ever causes a log line.
\<close>

record Options =
  opt_createBackups :: bool
  opt_formatOnSave :: bool
  opt_dryRun :: bool

text \<open>
  An entry of \<open>TransactionBackup.files\<close>, without its etag, which is never read; its
  field \<open>content\<close> is \<open>backup_content\<close>. A journal is kept under its id in
  \<open>activeTransactions\<close>; the fields of its operation records carry the prefix \<open>j_\<close>.
\<close>

record BackupFile =
  path :: string
  backup_content :: string
  existed :: bool

record TransactionBackup =
  backup_id :: string
  files :: "BackupFile list"

datatype JournalType = BackupOp | ApplyOp | RollbackOp

record JournalOp =
  j_type :: JournalType
  j_file :: string
  j_success :: bool
  j_error :: "string option"

datatype Status = pending | completed | failed | rolled_back

record TransactionJournal =
  planId :: string
  operations :: "JournalOp list"
  status :: Status

text \<open>
  The state the service works on: the workspace, and its two maps
  \<open>activeTransactions\<close> and \<open>backups\<close>. A journal is an object shared between the
  local variable of \<open>executeTransaction\<close> and the map, so every change to it is a change
  of the map's entry.
\<close>

record TxnState =
  disk :: filesystem
  activeTransactions :: "string \<rightharpoonup> TransactionJournal"
  backups :: "string \<rightharpoonup> TransactionBackup"

record ValidationResult =
  valid :: bool
  error :: "string option"

record TransactionResult =
  success :: bool
  appliedFiles :: "string list"
  errors :: "string list"

definition updateJournal :: "string \<Rightarrow> (TransactionJournal \<Rightarrow> TransactionJournal) \<Rightarrow> TxnState \<Rightarrow> TxnState" where
  "updateJournal txnId f st =
     (case activeTransactions st txnId of
        None \<Rightarrow> st
      | Some journal \<Rightarrow> st\<lparr>activeTransactions := (activeTransactions st)(txnId \<mapsto> f journal)\<rparr>)"

definition pushOperation :: "string \<Rightarrow> JournalOp \<Rightarrow> TxnState \<Rightarrow> TxnState" where
  "pushOperation txnId entry = updateJournal txnId (\<lambda>j. j\<lparr>operations := operations j @ [entry]\<rparr>)"

definition setStatus :: "string \<Rightarrow> Status \<Rightarrow> TxnState \<Rightarrow> TxnState" where
  "setStatus txnId s = updateJournal txnId (\<lambda>j. j\<lparr>status := s\<rparr>)"

subsection \<open>Phase 1: backups\<close>

fun backupFiles :: "string \<Rightarrow> filesystem \<Rightarrow> FileChange list \<Rightarrow> BackupFile list" where
  "backupFiles root fs [] = []"
| "backupFiles root fs (change # rest) =
     (if op change = Update \<or> op change = Delete then
        (if exists root fs (c_file change) then
           (case readFile root fs (c_file change) of
              Inr c \<Rightarrow> [\<lparr>path = c_file change, backup_content = c, existed = True\<rparr>]
            | Inl _ \<Rightarrow> [])
         else [\<lparr>path = c_file change, backup_content = [], existed = False\<rparr>])
      else [])
     @ backupFiles root fs rest"

definition createBackups :: "string \<Rightarrow> string \<Rightarrow> FileChange list \<Rightarrow> TxnState \<Rightarrow> TxnState" where
  "createBackups root txnId changes st =
     st\<lparr>backups := (backups st)(txnId \<mapsto>
          \<lparr>backup_id = txnId, files = backupFiles root (disk st) changes\<rparr>)\<rparr>"

subsection \<open>Phase 2: validation\<close>

definition validateDiff :: "string \<Rightarrow> string \<Rightarrow> bool" where
  "validateDiff filePath d \<longleftrightarrow> str_includes d ''@@'' \<and> (str_includes d ''+'' \<or> str_includes d ''-'')"

text \<open>
  One round of the loop of \<open>validateChanges\<close>: the result it pushes, and the change
  object as the round leaves it (the fallback assigns to \<open>change.applyMethod\<close>).
\<close>

definition validateChange :: "string \<Rightarrow> filesystem \<Rightarrow> FileChange \<Rightarrow> ValidationResult \<times> FileChange" where
  "validateChange root fs change =
     (if \<not> isPathAllowed allowedPaths (c_file change) then
        (\<lparr>valid = False, error = Some ''Path not allowed''\<rparr>, change)
      else
        (case (if op change = Update then readFile root fs (c_file change) else Inr []) of
           Inl e \<Rightarrow> (\<lparr>valid = False, error = Some (message e)\<rparr>, change)
         | Inr _ \<Rightarrow>
             (if applyMethod change = Diff \<and> truthy (diff change) then
                (if \<not> validateDiff (c_file change) (orEmpty (diff change)) then
                   (let change' = change\<lparr>applyMethod := ReplaceFile\<rparr> in
                    if \<not> truthy (content change') then
                      (\<lparr>valid = False, error = Some ''Diff invalid and no fallback content provided''\<rparr>,
                       change')
                    else (\<lparr>valid = True, error = None\<rparr>, change'))
                 else (\<lparr>valid = True, error = None\<rparr>, change))
              else (\<lparr>valid = True, error = None\<rparr>, change))))"

fun validateChanges :: "string \<Rightarrow> filesystem \<Rightarrow> FileChange list \<Rightarrow> ValidationResult list \<times> FileChange list" where
  "validateChanges root fs [] = ([], [])"
| "validateChanges root fs (change # rest) =
     (let (r, change') = validateChange root fs change;
          (results, rest') = validateChanges root fs rest
      in (r # results, change' # rest'))"

subsection \<open>Phase 3: applying one change\<close>

text \<open>
  \<open>Array.prototype.splice(start, 0, item)\<close>: a negative \<open>start\<close> counts from the end,
  and the position is clamped to the array.
\<close>

definition splice_insert :: "'a list \<Rightarrow> int \<Rightarrow> 'a \<Rightarrow> 'a list" where
  "splice_insert xs start item =
     (let len = int (length xs);
          actualStart = (if start < 0 then max (len + start) 0 else min start len)
      in take (nat actualStart) xs @ [item] @ drop (nat actualStart) xs)"

definition insertAtLine :: "string \<Rightarrow> filesystem \<Rightarrow> string \<Rightarrow> int \<Rightarrow> string \<Rightarrow> error + filesystem" where
  "insertAtLine root fs filePath lineNumber c =
     (case readFile root fs filePath of
        Inl e \<Rightarrow> Inl e
      | Inr currentContent \<Rightarrow>
          (let lines = splitOn CHR 0x0A currentContent;
               lines' = splice_insert lines (lineNumber - 1) c;
               newContent = joinWith [CHR 0x0A] lines'
           in writeFile root fs filePath newContent))"

definition applyDiff :: "string \<Rightarrow> filesystem \<Rightarrow> string \<Rightarrow> string \<Rightarrow> error + filesystem" where
  "applyDiff root fs filePath d =
     Inl (Error ''Diff application not yet implemented - use replaceFile method'')"

definition applyUpdate :: "string \<Rightarrow> filesystem \<Rightarrow> FileChange \<Rightarrow> error + filesystem" where
  "applyUpdate root fs change =
     (case applyMethod change of
        ReplaceFile \<Rightarrow>
          (if \<not> truthy (content change) then Inl (Error ''Content required for replaceFile method'')
           else writeFile root fs (c_file change) (orEmpty (content change)))
      | Diff \<Rightarrow>
          (if \<not> truthy (diff change) then Inl (Error ''Diff required for diff method'')
           else applyDiff root fs (c_file change) (orEmpty (diff change)))
      | InsertAtLine \<Rightarrow>
          (case insertAtLineNo change of
             None \<Rightarrow> Inl (Error ''Line number and content required for insertAtLine method'')
           | Some n \<Rightarrow>
               (if \<not> truthy (content change) then
                  Inl (Error ''Line number and content required for insertAtLine method'')
                else insertAtLine root fs (c_file change) n (orEmpty (content change)))))"

text \<open>
  \<open>applyFileChange\<close>. The operation and the apply method are values of their enums, so
  the two \<open>default\<close> branches are not reachable. The format step after the switch calls
  \<open>formatFile\<close>, which logs and cannot throw; it is left out.
\<close>

definition applyFileChange :: "string \<Rightarrow> filesystem \<Rightarrow> FileChange \<Rightarrow> Options \<Rightarrow> error + filesystem" where
  "applyFileChange root fs change options =
     (case op change of
        Create \<Rightarrow> writeFile root fs (c_file change) (orEmpty (content change))
      | Update \<Rightarrow> applyUpdate root fs change
      | Delete \<Rightarrow> deleteFile root fs (c_file change)
      | Rename \<Rightarrow>
          (if \<not> truthy (newPath change) then Inl (Error ''New path required for rename operation'')
           else renameFile root fs (c_file change) (orEmpty (newPath change))))"

subsection \<open>Rollback\<close>

definition restoreFile :: "string \<Rightarrow> filesystem \<Rightarrow> BackupFile \<Rightarrow> filesystem" where
  "restoreFile root fs f =
     (if existed f then
        (case writeFile root fs (path f) (backup_content f) of Inr fs' \<Rightarrow> fs' | Inl _ \<Rightarrow> fs)
      else if exists root fs (path f) then
        (case deleteFile root fs (path f) of Inr fs' \<Rightarrow> fs' | Inl _ \<Rightarrow> fs)
      else fs)"

fun restoreFiles :: "string \<Rightarrow> filesystem \<Rightarrow> BackupFile list \<Rightarrow> filesystem" where
  "restoreFiles root fs [] = fs"
| "restoreFiles root fs (f # rest) = restoreFiles root (restoreFile root fs f) rest"

definition rollbackTransaction :: "string \<Rightarrow> string \<Rightarrow> TxnState \<Rightarrow> error + TxnState" where
  "rollbackTransaction root txnId st =
     (case backups st txnId of
        None \<Rightarrow> Inl (Error (''No backup found for transaction '' @ txnId))
      | Some b \<Rightarrow>
          Inr (updateJournal txnId
                 (\<lambda>j. j\<lparr>status := rolled_back,
                         operations := operations j @
                           [\<lparr>j_type = RollbackOp, j_file = ''all'', j_success = True, j_error = None\<rparr>]\<rparr>)
                 (st\<lparr>disk := restoreFiles root (disk st) (files b)\<rparr>)))"

subsection \<open>The transaction\<close>

text \<open>
  The loop of phase 3 over the changes still to apply, with the two result arrays. It
  ends with the arrays, or with the error thrown out of the loop.
\<close>

fun applyLoop ::
  "string \<Rightarrow> string \<Rightarrow> Options \<Rightarrow> FileChange list \<Rightarrow> string list \<Rightarrow> string list \<Rightarrow> TxnState
   \<Rightarrow> (error + string list \<times> string list) \<times> TxnState" where
  "applyLoop root txnId options [] applied errs st = (Inr (applied, errs), st)"
| "applyLoop root txnId options (change # rest) applied errs st =
     (case applyFileChange root (disk st) change options of
        Inr fs' \<Rightarrow>
          applyLoop root txnId options rest (applied @ [c_file change]) errs
            (pushOperation txnId
               \<lparr>j_type = ApplyOp, j_file = c_file change, j_success = True, j_error = None\<rparr>
               (st\<lparr>disk := fs'\<rparr>))
      | Inl e \<Rightarrow>
          (let errorMsg = ''Failed to apply change to '' @ c_file change @ '': '' @ message e;
               st1 = pushOperation txnId
                 \<lparr>j_type = ApplyOp, j_file = c_file change, j_success = False, j_error = Some errorMsg\<rparr> st
           in if \<not> opt_dryRun options then
                (case rollbackTransaction root txnId st1 of
                   Inl e' \<Rightarrow> (Inl e', st1)
                 | Inr st2 \<Rightarrow>
                     (Inl (Error (''Transaction failed and rolled back: '' @ errorMsg)),
                      setStatus txnId rolled_back st2))
              else applyLoop root txnId options rest applied (errs @ [errorMsg]) st1))"

text \<open>
  \<open>executeTransaction\<close>. The transaction id is the fresh uuid. The result is what the
  method returns or the error it throws, the state it leaves, and the change objects as
  validation left them.
\<close>

definition executeTransaction ::
  "string \<Rightarrow> string \<Rightarrow> string \<Rightarrow> FileChange list \<Rightarrow> Options \<Rightarrow> TxnState
   \<Rightarrow> ((error + TransactionResult) \<times> TxnState) \<times> FileChange list" where
  "executeTransaction root pid txnId changes options st =
     (let st0 = st\<lparr>activeTransactions := (activeTransactions st)(txnId \<mapsto>
                   \<lparr>planId = pid, operations = [], status = pending\<rparr>)\<rparr>;
          st1 = (if opt_createBackups options then createBackups root txnId changes st0 else st0);
          (validationResults, changes') = validateChanges root (disk st1) changes
      in if list_ex (\<lambda>r. \<not> valid r) validationResults then
           ((Inl (Error (''Validation failed: '' @
                joinWith '', '' (map (\<lambda>r. orEmpty (error r)) (filter (\<lambda>r. \<not> valid r) validationResults)))),
             setStatus txnId failed st1), changes')
         else
           (case applyLoop root txnId options changes' [] [] st1 of
              (Inr (applied, errs), st2) \<Rightarrow>
                ((Inr \<lparr>success = (errs = []), appliedFiles = applied, errors = errs\<rparr>,
                  setStatus txnId completed st2), changes')
            | (Inl e, st2) \<Rightarrow> ((Inl e, setStatus txnId failed st2), changes')))"

section \<open>The planner (planner.ts)\<close>

subsection \<open>Data\<close>

text \<open>
  A plan step and the response of the AI service, with the fields the planner and the
  routes read: the step's id and dependencies, and the response's id, steps
  (\<open>plan.steps\<close>), changes and warnings.
\<close>

record PlanStep =
  step_id :: string
  dependencies :: "string list"

record AIResponse =
  response_id :: string
  plan_steps :: "PlanStep list"
  plan_changes :: "FileChange list"
  plan_warnings :: "string list"

record PlanValidation =
  plan_valid :: bool
  plan_errors :: "string list"

subsection \<open>Validation of one file change\<close>

definition checkApplyMethod :: "FileChange \<Rightarrow> ValidationResult" where
  "checkApplyMethod change =
     (if applyMethod change = Diff \<and> \<not> truthy (diff change) then
        \<lparr>valid = False, error = Some ''Diff content required for diff apply method''\<rparr>
      else if applyMethod change = ReplaceFile \<and> \<not> truthy (content change) then
        \<lparr>valid = False, error = Some ''Content required for replaceFile apply method''\<rparr>
      else if applyMethod change = InsertAtLine
              \<and> (insertAtLineNo change = None \<or> \<not> truthy (content change)) then
        \<lparr>valid = False, error = Some ''Line number and content required for insertAtLine apply method''\<rparr>
      else \<lparr>valid = True, error = None\<rparr>)"

text \<open>
  \<open>validateFileChange\<close>: the path check, the \<open>switch\<close> on the operation, then the checks
  of the apply method (\<open>checkApplyMethod\<close>, the code after the \<open>switch\<close>). Nothing in its
  \<open>try\<close> block throws in this model, so its \<open>catch\<close> is not reached.
\<close>

definition validateFileChange :: "string \<Rightarrow> filesystem \<Rightarrow> FileChange \<Rightarrow> ValidationResult" where
  "validateFileChange root fs change =
     (if \<not> isPathAllowed allowedPaths (c_file change) then
        \<lparr>valid = False, error = Some ''Path not allowed by security policy''\<rparr>
      else
        (case op change of
           Create \<Rightarrow>
             (if exists root fs (c_file change) then
                \<lparr>valid = False, error = Some ''File already exists''\<rparr>
              else checkApplyMethod change)
         | Update \<Rightarrow>
             (if \<not> exists root fs (c_file change) then
                \<lparr>valid = False, error = Some ''File does not exist''\<rparr>
              else checkApplyMethod change)
         | Delete \<Rightarrow>
             (if \<not> exists root fs (c_file change) then
                \<lparr>valid = False, error = Some ''File does not exist''\<rparr>
              else checkApplyMethod change)
         | Rename \<Rightarrow>
             (if \<not> exists root fs (c_file change) then
                \<lparr>valid = False, error = Some ''Source file does not exist''\<rparr>
              else if \<not> truthy (newPath change) then
                \<lparr>valid = False, error = Some ''New path required for rename operation''\<rparr>
              else checkApplyMethod change)))"

subsection \<open>Cycle detection\<close>

text \<open>
  \<open>hasCycle\<close> is the closure inside \<open>hasCircularDependencies\<close>; the two sets it shares
  with its recursive calls, \<open>visited\<close> and \<open>recursionStack\<close>, are passed in and
  returned. \<open>hasCycleDeps\<close> is its loop over the dependencies of a step, which returns
  at the first cycle found.

  The closure calls itself once for every dependency edge it follows, and the call stack
  of the engine is finite: \<open>frames\<close> is the number of nested activations of
  \<open>hasCycle\<close> the stack still has room for. A call for which there is no room throws
  the engine's \<open>RangeError\<close>, which passes through every activation below it.
\<close>

definition RangeError :: error where
  "RangeError = Error ''Maximum call stack size exceeded''"

fun hasCycle :: "PlanStep list \<Rightarrow> nat \<Rightarrow> string \<Rightarrow> string set \<times> string set \<Rightarrow> error + bool \<times> string set \<times> string set"
  and hasCycleDeps :: "PlanStep list \<Rightarrow> nat \<Rightarrow> string list \<Rightarrow> string set \<times> string set \<Rightarrow> error + bool \<times> string set \<times> string set"
  where
  "hasCycle steps 0 stepId st = Inl RangeError"
| "hasCycle steps (Suc frames) stepId (visited, recursionStack) =
     (if stepId \<in> recursionStack then Inr (True, visited, recursionStack)
      else if stepId \<in> visited then Inr (False, visited, recursionStack)
      else
        (case find (\<lambda>s. step_id s = stepId) steps of
           None \<Rightarrow> Inr (False, insert stepId visited, insert stepId recursionStack - {stepId})
         | Some step \<Rightarrow>
             (case hasCycleDeps steps frames (dependencies step)
                     (insert stepId visited, insert stepId recursionStack) of
                Inl e \<Rightarrow> Inl e
              | Inr (found, visited', recursionStack') \<Rightarrow>
                  if found then Inr (True, visited', recursionStack')
                  else Inr (False, visited', recursionStack' - {stepId}))))"
| "hasCycleDeps steps frames [] st = Inr (False, st)"
| "hasCycleDeps steps frames (depId # rest) st =
     (case hasCycle steps frames depId st of
        Inl e \<Rightarrow> Inl e
      | Inr (found, st') \<Rightarrow> if found then Inr (True, st') else hasCycleDeps steps frames rest st')"

text \<open>The loop of \<open>hasCircularDependencies\<close> over all steps.\<close>

fun hasCycleFrom :: "PlanStep list \<Rightarrow> nat \<Rightarrow> PlanStep list \<Rightarrow> string set \<times> string set \<Rightarrow> error + bool" where
  "hasCycleFrom steps frames [] st = Inr False"
| "hasCycleFrom steps frames (step # rest) st =
     (case hasCycle steps frames (step_id step) st of
        Inl e \<Rightarrow> Inl e
      | Inr (found, st') \<Rightarrow> if found then Inr True else hasCycleFrom steps frames rest st')"

definition hasCircularDependencies :: "nat \<Rightarrow> PlanStep list \<Rightarrow> error + bool" where
  "hasCircularDependencies frames steps = hasCycleFrom steps frames steps ({}, {})"

subsection \<open>Plan validation\<close>

definition fileErrors :: "string \<Rightarrow> filesystem \<Rightarrow> FileChange list \<Rightarrow> string list" where
  "fileErrors root fs cs =
     concat (map (\<lambda>change.
        let validation = validateFileChange root fs change
        in if \<not> valid validation then
             [''File '' @ c_file change @ '': '' @ orEmpty (error validation)]
           else []) cs)"

definition dependencyErrors :: "PlanStep list \<Rightarrow> string list" where
  "dependencyErrors ss =
     (let stepIds = set (map step_id ss)
      in concat (map (\<lambda>step.
           concat (map (\<lambda>depId.
             if depId \<notin> stepIds then
               [''Step '' @ step_id step @ '' has invalid dependency: '' @ depId]
             else []) (dependencies step))) ss))"

text \<open>
  \<open>validatePlan\<close>, with the room \<open>frames\<close> the call stack has when it is called. The
  two loops of its \<open>try\<close> block collect the errors of the file changes and of the
  dependencies; then comes the cycle check. An exception in the \<open>try\<close> block, which
  in this model is the \<open>RangeError\<close> of the cycle check, is answered by the \<open>catch\<close>:
  the errors collected so far are dropped and the result is invalid with the one error
  \<open>Internal validation error\<close>.
\<close>

definition validatePlan :: "string \<Rightarrow> filesystem \<Rightarrow> nat \<Rightarrow> AIResponse \<Rightarrow> PlanValidation" where
  "validatePlan root fs frames response =
     (let errs = fileErrors root fs (plan_changes response) @ dependencyErrors (plan_steps response)
      in case hasCircularDependencies frames (plan_steps response) of
           Inr circular \<Rightarrow>
             (let errs' = errs @ (if circular then [''Plan contains circular dependencies''] else [])
              in \<lparr>plan_valid = (errs' = []), plan_errors = errs'\<rparr>)
         | Inl e \<Rightarrow> \<lparr>plan_valid = False, plan_errors = [''Internal validation error'']\<rparr>)"

section \<open>The apply route (ai.routes.ts)\<close>

record ApplyPlanRequest =
  selectedFiles :: "string list option"
  req_options :: Options

datatype ApplyResponse = PlanNotFound | PlanApplied TransactionResult | PlanApplyFailed error

text \<open>
  What the route handlers share: the planner's map \<open>activePlans\<close> and the state of the
  transaction service.
\<close>

record Services =
  activePlans :: "string \<rightharpoonup> AIResponse"
  txnState :: TxnState

definition getPlan :: "Services \<Rightarrow> string \<Rightarrow> AIResponse option" where
  "getPlan sv pid = activePlans sv pid"

text \<open>
  The array handed to \<open>executeTransaction\<close> is \<open>plan.changes\<close> itself or a filtered copy
  of it; either way its elements are the change objects of the stored plan. What the
  transaction assigns to them is therefore seen through the plan store: \<open>writeBack\<close>
  puts the objects as the transaction left them at their places in \<open>plan.changes\<close>.
  The objects of one array are distinct objects (the plan is parsed JSON), so a list of
  values stands for the array.
\<close>

fun writeBack :: "(FileChange \<Rightarrow> bool) \<Rightarrow> FileChange list \<Rightarrow> FileChange list \<Rightarrow> FileChange list" where
  "writeBack chosen [] ms = []"
| "writeBack chosen (c # cs) ms =
     (if chosen c then
        (case ms of [] \<Rightarrow> c # writeBack chosen cs [] | m # ms' \<Rightarrow> m # writeBack chosen cs ms')
      else c # writeBack chosen cs ms)"

definition applyPlanRoute :: "string \<Rightarrow> string \<Rightarrow> ApplyPlanRequest \<Rightarrow> string \<Rightarrow> Services \<Rightarrow> ApplyResponse \<times> Services" where
  "applyPlanRoute root pid request txnId sv =
     (case getPlan sv pid of
        None \<Rightarrow> (PlanNotFound, sv)
      | Some plan \<Rightarrow>
          (let selecting = (case selectedFiles request of None \<Rightarrow> False | Some sel \<Rightarrow> sel \<noteq> []);
               chosen = (\<lambda>change. c_file change \<in> set (case selectedFiles request of None \<Rightarrow> [] | Some sel \<Rightarrow> sel));
               changesToApply = (if selecting then filter chosen (plan_changes plan) else plan_changes plan);
               ((outcome, st'), changes') =
                 executeTransaction root pid txnId changesToApply (req_options request) (txnState sv);
               plan' = plan\<lparr>plan_changes :=
                         (if selecting then writeBack chosen (plan_changes plan) changes' else changes')\<rparr>;
               sv' = sv\<lparr>activePlans := (activePlans sv)(pid \<mapsto> plan'), txnState := st'\<rparr>
           in (case outcome of Inr result \<Rightarrow> PlanApplied result | Inl e \<Rightarrow> PlanApplyFailed e, sv')))"

section \<open>Notions the properties are stated with\<close>

subsection \<open>The dependency graph\<close>

text \<open>
  The step-dependency graph has an edge from the id of a step to each of its
  dependencies; a plan is cyclic when some id reaches itself along at least one edge.
\<close>

definition depGraph :: "PlanStep list \<Rightarrow> (string \<times> string) set" where
  "depGraph steps = {(step_id s, d) | s d. s \<in> set steps \<and> d \<in> set (dependencies s)}"

definition cyclic :: "PlanStep list \<Rightarrow> bool" where
  "cyclic steps \<longleftrightarrow> (\<exists>x. (x, x) \<in> (depGraph steps)\<^sup>+)"




text \<open>
  Whether the cycle check of a plan runs out of call stack when the stack has room for
  \<open>frames\<close> activations of \<open>hasCycle\<close>.
\<close>

definition searchOverflows :: "nat \<Rightarrow> PlanStep list \<Rightarrow> bool" where
  "searchOverflows frames steps \<longleftrightarrow> isl (hasCircularDependencies frames steps)"

subsection \<open>What makes a plan invalid\<close>

text \<open>
  The three ways a plan can be wrong, in the words of the validator's contract: a step
  names a dependency that is no step of the plan; the dependency graph has a cycle; a
  file change fails its precondition (its path is refused, a created file exists, an
  updated or deleted file is missing, the source of a rename is missing or its new path
  absent, or the payload its apply method needs is missing: the diff text for \<open>diff\<close>,
  the content for \<open>replaceFile\<close>, the line number and the content for
  \<open>insertAtLine\<close>).

  When a field counts as missing is a parameter \<open>missing\<close> of the last notion. In the
  words of the contract a field is missing when the change does not have it
  (\<open>absent\<close>); the wider reading \<open>absentOrEmpty\<close> also counts a field that is the
  empty string.
\<close>

definition danglingDependency :: "PlanStep list \<Rightarrow> bool" where
  "danglingDependency ss \<longleftrightarrow>
     (\<exists>step \<in> set ss. \<exists>d \<in> set (dependencies step). d \<notin> set (map step_id ss))"





subsection \<open>The course of a batch\<close>




subsection \<open>The course of a dry run\<close>

text \<open>
  Attempting every change in turn, each on the workspace its predecessors left, a failed
  one leaving it as it is: the outcome of each attempt, and the workspace at the end.
\<close>

fun attemptAll :: "string \<Rightarrow> Options \<Rightarrow> filesystem \<Rightarrow> FileChange list \<Rightarrow> bool list \<times> filesystem" where
  "attemptAll root options d [] = ([], d)"
| "attemptAll root options d (c # cs) =
     (case applyFileChange root d c options of
        Inr d' \<Rightarrow> (True # fst (attemptAll root options d' cs), snd (attemptAll root options d' cs))
      | Inl _ \<Rightarrow> (False # fst (attemptAll root options d cs), snd (attemptAll root options d cs)))"

subsection \<open>Selection of a change by an apply request\<close>

text \<open>Whether a request selects a change: it names no files, or it names the file of the change.\<close>

definition selects :: "ApplyPlanRequest \<Rightarrow> FileChange \<Rightarrow> bool" where
  "selects request c \<longleftrightarrow>
     (case selectedFiles request of None \<Rightarrow> True | Some sel \<Rightarrow> sel = [] \<or> c_file c \<in> set sel)"

section \<open>Example inputs\<close>

subsection \<open>Changes, options and states\<close>

definition createA :: FileChange where
  "createA = \<lparr>c_file = ''src/a.ts'', op = Create, applyMethod = ReplaceFile, diff = None,
     content = Some ''x'', newPath = None, insertAtLineNo = None, backup = True\<rparr>"

definition createB :: FileChange where
  "createB = \<lparr>c_file = ''src/b.ts'', op = Create, applyMethod = ReplaceFile, diff = None,
     content = Some ''new'', newPath = None, insertAtLineNo = None, backup = True\<rparr>"

definition deleteB :: FileChange where
  "deleteB = \<lparr>c_file = ''src/b.ts'', op = Delete, applyMethod = ReplaceFile, diff = None,
     content = Some ''unused'', newPath = None, insertAtLineNo = None, backup = True\<rparr>"

definition createPasswd :: FileChange where
  "createPasswd = \<lparr>c_file = ''/etc/passwd'', op = Create, applyMethod = ReplaceFile, diff = None,
     content = Some ''x'', newPath = None, insertAtLineNo = None, backup = True\<rparr>"

definition updateB :: FileChange where
  "updateB = \<lparr>c_file = ''src/b.ts'', op = Update, applyMethod = ReplaceFile, diff = None,
     content = Some ''new'', newPath = None, insertAtLineNo = None, backup = True\<rparr>"

text \<open>An update by diff whose diff text is no diff, with content to fall back on.\<close>

definition badDiffUpdate :: FileChange where
  "badDiffUpdate = \<lparr>c_file = ''src/b.ts'', op = Update, applyMethod = Diff, diff = Some ''not a diff'',
     content = Some ''new'', newPath = None, insertAtLineNo = None, backup = True\<rparr>"



definition stateWith :: "filesystem \<Rightarrow> TxnState" where
  "stateWith d = \<lparr>disk = d, activeTransactions = Map.empty, backups = Map.empty\<rparr>"

definition realRun :: Options where
  "realRun = \<lparr>opt_createBackups = True, opt_formatOnSave = False, opt_dryRun = False\<rparr>"

definition dryRunOpts :: Options where
  "dryRunOpts = \<lparr>opt_createBackups = True, opt_formatOnSave = False, opt_dryRun = True\<rparr>"


subsection \<open>Plans and requests\<close>

definition planWith :: "PlanStep list \<Rightarrow> FileChange list \<Rightarrow> AIResponse" where
  "planWith ss cs = \<lparr>response_id = ''plan'', plan_steps = ss, plan_changes = cs, plan_warnings = []\<rparr>"

definition servicesWith :: "filesystem \<Rightarrow> FileChange list \<Rightarrow> Services" where
  "servicesWith d cs = \<lparr>activePlans = [''plan'' \<mapsto> planWith [] cs], txnState = stateWith d\<rparr>"

definition applyAll :: ApplyPlanRequest where
  "applyAll = \<lparr>selectedFiles = None, req_options = realRun\<rparr>"









text \<open>
  Plans of any size: \<open>pathSteps n lastDeps\<close> has \<open>n\<close> steps with distinct ids, each
  depending on the next, the last one on \<open>lastDeps\<close>. With no dependencies of the last
  step it is a chain, with the first step as its dependency a ring.
\<close>

definition stepName :: "nat \<Rightarrow> string" where
  "stepName i = replicate (Suc i) CHR ''s''"

definition pathSteps :: "nat \<Rightarrow> string list \<Rightarrow> PlanStep list" where
  "pathSteps n lastDeps =
     map (\<lambda>i. \<lparr>step_id = stepName i,
                dependencies = (if Suc i = n then lastDeps else [stepName (Suc i)])\<rparr>) [0..<n]"

section \<open>Properties of the path policy guard\<close>

subsection \<open>Facts about splitting, joining and searching\<close>

lemma splitOn_nonempty: "splitOn c s \<noteq> []"
  by (induction s) (auto split: list.splits)

lemma includes_append_left: "str_includes s t \<Longrightarrow> str_includes (r @ s) t"
  by (induction r) auto

lemma includes_Nil: "str_includes s []"
  by (cases s) auto

lemma includes_append_right: "str_includes s t \<Longrightarrow> str_includes (s @ r) t"
proof (induction s)
  case Nil
  then show ?case by (simp add: includes_Nil)
next
  case (Cons c cs)
  from Cons.prems have "prefix t (c # cs) \<or> str_includes cs t" by simp
  then show ?case
  proof
    assume "prefix t (c # cs)"
    then have "prefix t ((c # cs) @ r)" by (rule prefix_prefix)
    then show ?thesis by simp
  next
    assume "str_includes cs t"
    then show ?thesis using Cons.IH by simp
  qed
qed

lemma includes_self: "str_includes t t"
  by (cases t) auto

lemma includes_iff: "str_includes s t \<longleftrightarrow> (\<exists>a b. s = a @ t @ b)"
proof
  show "str_includes s t \<Longrightarrow> \<exists>a b. s = a @ t @ b"
  proof (induction s)
    case Nil
    then show ?case by simp
  next
    case (Cons c cs)
    from Cons.prems have "prefix t (c # cs) \<or> str_includes cs t" by simp
    then show ?case
    proof
      assume "prefix t (c # cs)"
      then obtain b where "c # cs = t @ b" by (auto simp: prefix_def)
      then have "c # cs = [] @ t @ b" by simp
      then show ?thesis by blast
    next
      assume "str_includes cs t"
      with Cons.IH obtain a b where "cs = a @ t @ b" by blast
      then have "c # cs = (c # a) @ t @ b" by simp
      then show ?thesis by blast
    qed
  qed
next
  assume "\<exists>a b. s = a @ t @ b"
  then obtain a b where "s = a @ t @ b" by blast
  then show "str_includes s t"
    by (simp add: includes_append_left includes_append_right includes_self)
qed

lemma includes_trans:
  assumes "str_includes s x" and "str_includes x t"
  shows "str_includes s t"
proof -
  from assms(1) obtain a b where s: "s = a @ x @ b" by (auto simp: includes_iff)
  from assms(2) obtain a' b' where "x = a' @ t @ b'" by (auto simp: includes_iff)
  with s have "s = (a @ a') @ t @ (b' @ b)" by simp
  then show ?thesis unfolding includes_iff by blast
qed

lemma splitOn_hd_prefix: "prefix (hd (splitOn c s)) s"
  by (induction s) (auto split: list.splits)

lemma splitOn_includes: "x \<in> set (splitOn c s) \<Longrightarrow> str_includes s x"
proof (induction s arbitrary: x)
  case Nil
  then show ?case by simp
next
  case (Cons a s)
  show ?case
  proof (cases "a = c")
    case True
    with Cons.prems have "x = [] \<or> x \<in> set (splitOn c s)" by simp
    then show ?thesis using Cons.IH by (auto simp: includes_Nil)
  next
    case False
    obtain h r where hr: "splitOn c s = h # r"
      using splitOn_nonempty [of c s] by (cases "splitOn c s") auto
    with False Cons.prems have "x = a # h \<or> x \<in> set r" by simp
    then show ?thesis
    proof
      assume x: "x = a # h"
      have "prefix h s" using splitOn_hd_prefix [of c s] hr by simp
      with x show ?thesis by simp
    next
      assume "x \<in> set r"
      with hr have "x \<in> set (splitOn c s)" by simp
      then show ?thesis using Cons.IH by simp
    qed
  qed
qed

lemma includes_dotdot_slash:
  "str_includes (u @ CHR ''/'' # v) ''..'' \<longleftrightarrow> str_includes u ''..'' \<or> str_includes v ''..''"
proof (induction u)
  case Nil
  then show ?case by simp
next
  case (Cons c u)
  have "prefix ''..'' (c # u @ CHR ''/'' # v) \<longleftrightarrow> prefix ''..'' (c # u)"
    by (cases u) auto
  with Cons show ?case by auto
qed

lemma joinWith_Cons: "joinWith s (x # ys) = x @ concat (map (\<lambda>y. s @ y) ys)"
  by (induction ys arbitrary: x) auto

lemma includes_dotdot_join:
  "(\<forall>s \<in> set ss. \<not> str_includes s ''..'') \<Longrightarrow> \<not> str_includes (joinWith ''/'' ss) ''..''"
proof (induction ss)
  case Nil
  then show ?case by simp
next
  case (Cons x ss)
  show ?case
  proof (cases ss)
    case Nil
    with Cons.prems show ?thesis by simp
  next
    case (Cons y ys)
    from Cons.prems Cons.IH
    have "\<not> str_includes x ''..''" and "\<not> str_includes (joinWith ''/'' ss) ''..''"
      by simp_all
    then show ?thesis
      using includes_dotdot_slash [of x "joinWith ''/'' ss"] Cons by simp
  qed
qed

subsection \<open>Facts about \<open>normalize_path\<close>\<close>

lemma normalize_absolute: "prefix ''/'' p \<Longrightarrow> prefix ''/'' (normalize_path p)"
  by (cases p) (auto simp: normalize_path_def Let_def)

lemma normalizeString_no_dotdot:
  "''..'' \<notin> set ss \<Longrightarrow>
   normalizeString a res ss = res @ filter (\<lambda>s. s \<noteq> [] \<and> s \<noteq> ''.'') ss"
  by (induction ss arbitrary: res) auto

lemma splitOn_append_hd:
  "c \<notin> set e \<Longrightarrow> splitOn c (e @ x) = (e @ hd (splitOn c x)) # tl (splitOn c x)"
proof (induction e)
  case Nil
  then show ?case using splitOn_nonempty [of c x] by simp
next
  case (Cons a e)
  then show ?case by auto
qed

subsection \<open>The guard rejects traversal and absolute paths\<close>

lemma normalize_examples:
  "normalize_path ''../../etc/passwd'' = ''../../etc/passwd''"
  "normalize_path ''/etc/passwd'' = ''/etc/passwd''"
  "normalize_path ''src/App.tsx'' = ''src/App.tsx''"
  "normalize_path ''package.json..x'' = ''package.json..x''"
  "normalize_path ''a/../../b'' = ''../b''"
  by (simp_all add: normalize_path_def)

text \<open>
  Claim C3. For every input string and every allow-list, \<open>isPathAllowed\<close> returns false
  whenever the normalised path has a \<open>..\<close> segment, whenever the normalised path is
  absolute, and whenever the input itself is absolute; when it returns true, the
  normalised path starts with (or equals) an entry of the allow-list. With an allow-list
  that contains \<open>src/\<close>, the paths \<open>../../etc/passwd\<close> and \<open>/etc/passwd\<close> are
  rejected and \<open>src/App.tsx\<close> is accepted.
\<close>

theorem isPathAllowed_policy:
  "(''..'' \<in> set (splitOn CHR ''/'' (normalize_path p)) \<or> prefix ''/'' (normalize_path p) \<or> prefix ''/'' p
      \<longrightarrow> \<not> isPathAllowed allowed p)
   \<and> (isPathAllowed allowed p
      \<longrightarrow> (\<exists>a \<in> set allowed. prefix a (normalize_path p) \<or> normalize_path p = a))
   \<and> (''src/'' \<in> set allowed
      \<longrightarrow> \<not> isPathAllowed allowed ''../../etc/passwd''
        \<and> \<not> isPathAllowed allowed ''/etc/passwd''
        \<and> isPathAllowed allowed ''src/App.tsx'')"
proof (intro conjI impI)
  assume "''..'' \<in> set (splitOn CHR ''/'' (normalize_path p)) \<or> prefix ''/'' (normalize_path p) \<or> prefix ''/'' p"
  then have "str_includes (normalize_path p) ''..'' \<or> prefix ''/'' (normalize_path p)"
    using splitOn_includes [of "''..''" "CHR ''/''" "normalize_path p"] normalize_absolute [of p]
    by blast
  then show "\<not> isPathAllowed allowed p"
    by (auto simp: isPathAllowed_def Let_def)
next
  assume "isPathAllowed allowed p"
  then show "\<exists>a \<in> set allowed. prefix a (normalize_path p) \<or> normalize_path p = a"
    by (auto simp: isPathAllowed_def Let_def list_ex_iff split: if_splits)
next
  assume "''src/'' \<in> set allowed"
  show "\<not> isPathAllowed allowed ''../../etc/passwd''"
    by (simp add: isPathAllowed_def normalize_examples)
next
  assume "''src/'' \<in> set allowed"
  show "\<not> isPathAllowed allowed ''/etc/passwd''"
    by (simp add: isPathAllowed_def normalize_examples)
next
  assume "''src/'' \<in> set allowed"
  then have "\<exists>a \<in> set allowed. prefix a ''src/App.tsx''"
    by (intro bexI [of _ "''src/''"]) simp_all
  then show "isPathAllowed allowed ''src/App.tsx''"
    by (auto simp: isPathAllowed_def Let_def normalize_examples list_ex_iff)
qed

theorem isPathAllowed_policy_witness:
  "prefix ''/'' ''/etc/passwd'' \<and> \<not> isPathAllowed allowedPaths ''/etc/passwd''
   \<and> ''..'' \<in> set (splitOn CHR ''/'' (normalize_path ''a/../../b''))
   \<and> \<not> isPathAllowed allowedPaths ''a/../../b''
   \<and> ''src/'' \<in> set allowedPaths
   \<and> isPathAllowed allowedPaths ''src/App.tsx''
   \<and> (\<exists>a \<in> set allowedPaths. prefix a (normalize_path ''src/App.tsx'') \<or> normalize_path ''src/App.tsx'' = a)"
proof -
  have abs: "prefix ''/'' ''/etc/passwd''" by simp
  have dd: "''..'' \<in> set (splitOn CHR ''/'' (normalize_path ''a/../../b''))"
    by (simp add: normalize_examples)
  have src: "''src/'' \<in> set allowedPaths" by (simp add: allowedPaths_def)
  from isPathAllowed_policy [of "''/etc/passwd''" allowedPaths] abs
  have 1: "\<not> isPathAllowed allowedPaths ''/etc/passwd''" by blast
  from isPathAllowed_policy [of "''a/../../b''" allowedPaths] dd
  have 2: "\<not> isPathAllowed allowedPaths ''a/../../b''" by blast
  from isPathAllowed_policy [of "''src/App.tsx''" allowedPaths] src
  have 3: "isPathAllowed allowedPaths ''src/App.tsx''" by blast
  with isPathAllowed_policy [of "''src/App.tsx''" allowedPaths]
  have 4: "\<exists>a \<in> set allowedPaths. prefix a (normalize_path ''src/App.tsx'') \<or> normalize_path ''src/App.tsx'' = a"
    by blast
  from abs dd src 1 2 3 4 show ?thesis by (intro conjI)
qed

subsection \<open>The allow-list is matched by string prefix\<close>

lemma normalize_file_entry:
  assumes e: "CHR ''/'' \<notin> set e" "e \<noteq> []" "e \<noteq> ''.''"
    and dd: "\<not> str_includes (e @ x) ''..''"
  shows "prefix e (normalize_path (e @ x))" and "\<not> str_includes (normalize_path (e @ x)) ''..''"
    and "\<not> prefix ''/'' (normalize_path (e @ x))"
proof -
  let ?p = "e @ x"
  let ?segs = "splitOn CHR ''/'' ?p"
  let ?keep = "\<lambda>s::string. s \<noteq> [] \<and> s \<noteq> ''.''"
  obtain h r where hr: "splitOn CHR ''/'' x = h # r"
    using splitOn_nonempty [of "CHR ''/''" x] by (cases "splitOn CHR ''/'' x") auto
  have segs: "?segs = (e @ h) # r"
    using splitOn_append_hd [OF e(1), of x] hr by simp
  have seg_dd: "\<not> str_includes s ''..''" if "s \<in> set ?segs" for s
    using that dd includes_trans [OF splitOn_includes [of s "CHR ''/''" ?p]] by blast
  have "''..'' \<notin> set ?segs"
    using seg_dd [of "''..''"] by auto
  then have ns: "normalizeString True [] ?segs = filter ?keep ?segs"
    using normalizeString_no_dotdot [of ?segs True "[]"] by simp
  have keep_hd: "?keep (e @ h)"
    using e(2,3) by (cases e) auto
  with segs have flt: "filter ?keep ?segs = (e @ h) # filter ?keep r" by simp
  have "hd ?p \<noteq> CHR ''/''"
    using e(1,2) by (cases e) auto
  moreover have "?p \<noteq> []"
    using e(2) by simp
  ultimately have rel: "hd ?p \<noteq> CHR ''/''" "?p \<noteq> []" .
  define j where "j = joinWith ''/'' (filter ?keep ?segs)"
  have j_ne: "j \<noteq> []" and j_pre: "prefix e j"
    using e(2) by (simp_all add: j_def flt joinWith_Cons)
  have j_dd: "\<not> str_includes j ''..''"
    unfolding j_def by (rule includes_dotdot_join) (use seg_dd in auto)
  have norm: "normalize_path ?p = j @ (if last ?p = CHR ''/'' then ''/'' else [])"
    using rel j_ne by (simp add: normalize_path_def Let_def ns j_def del: filter.simps)
  show "prefix e (normalize_path ?p)"
    using j_pre by (simp add: norm prefix_prefix)
  show "\<not> str_includes (normalize_path ?p) ''..''"
    using j_dd includes_dotdot_slash [of j "[]"] by (simp add: norm)
  show "\<not> prefix ''/'' (normalize_path ?p)"
    unfolding norm using j_pre e(1,2) by (cases e) (auto simp: prefix_def)
qed

text \<open>
  Claim C9, as stated, read with "segment" as a path component: every path made of a
  file entry of the allow-list followed by more characters, with no \<open>..\<close> component and
  no leading \<open>/\<close>, is accepted. The guard searches the normalised path for the
  substring \<open>..\<close>, so \<open>package.json..x\<close>, whose only component is neither \<open>..\<close> nor
  absolute, is rejected.
\<close>

theorem isPathAllowed_prefix_counterexample:
  "''package.json'' \<in> set allowedPaths
   \<and> ''..'' \<notin> set (splitOn CHR ''/'' (''package.json'' @ ''..x''))
   \<and> \<not> prefix ''/'' (''package.json'' @ ''..x'')
   \<and> \<not> isPathAllowed allowedPaths (''package.json'' @ ''..x'')"
  by (simp add: allowedPaths_def isPathAllowed_def normalize_examples)

text \<open>
  Claim C9, amended: the allow-list check is string-prefix matching. For every entry
  \<open>e\<close> of the allow-list that is a single file name (no \<open>/\<close>, not empty, not \<open>.\<close>) and
  every string \<open>x\<close> of extra characters, if the path \<open>e @ x\<close> nowhere contains two
  consecutive dots, then \<open>isPathAllowed\<close> accepts it, although for \<open>x \<noteq> []\<close> it names
  a file that is not on the list (\<open>package.jsonX\<close>, \<open>README.mdx\<close>).
\<close>

theorem isPathAllowed_prefix_matching:
  assumes "e \<in> set allowed" and "CHR ''/'' \<notin> set e" and "e \<noteq> []" and "e \<noteq> ''.''"
    and "\<not> str_includes (e @ x) ''..''"
  shows "isPathAllowed allowed (e @ x)"
proof -
  from normalize_file_entry [OF assms(2-5)]
  have "prefix e (normalize_path (e @ x))" "\<not> str_includes (normalize_path (e @ x)) ''..''"
    "\<not> prefix ''/'' (normalize_path (e @ x))" by simp_all
  with assms(1) show ?thesis
    by (auto simp: isPathAllowed_def Let_def list_ex_iff)
qed

theorem isPathAllowed_prefix_matching_witness:
  "''package.json'' \<in> set allowedPaths \<and> ''README.md'' \<in> set allowedPaths
   \<and> isPathAllowed allowedPaths ''package.jsonX''
   \<and> isPathAllowed allowedPaths ''README.mdx''
   \<and> ''package.jsonX'' \<notin> set allowedPaths \<and> ''README.mdx'' \<notin> set allowedPaths"
proof -
  have a: "''package.json'' \<in> set allowedPaths" "''README.md'' \<in> set allowedPaths"
    by (simp_all add: allowedPaths_def)
  have n: "''package.jsonX'' \<notin> set allowedPaths" "''README.mdx'' \<notin> set allowedPaths"
    by (simp_all add: allowedPaths_def)
  have "isPathAllowed allowedPaths (''package.json'' @ ''X'')"
    by (rule isPathAllowed_prefix_matching [OF a(1)]) simp_all
  moreover have "isPathAllowed allowedPaths (''README.md'' @ ''x'')"
    by (rule isPathAllowed_prefix_matching [OF a(2)]) simp_all
  ultimately show ?thesis using a n by simp
qed

section \<open>Properties of the filesystem adapter\<close>

subsection \<open>Batch operations\<close>










lemma allowed_examples:
  "isPathAllowed allowedPaths ''src/a.ts''"
  "isPathAllowed allowedPaths ''src/b.ts''"
  "isPathAllowed allowedPaths ''src/notes.txt''"
  "\<not> isPathAllowed allowedPaths ''/etc/passwd''"
  by (simp_all add: isPathAllowed_def normalize_path_def allowedPaths_def)

lemma path_join_examples:
  "path_join ''/w'' ''src/a.ts'' = ''/w/src/a.ts''"
  "path_join ''/w'' ''src/b.ts'' = ''/w/src/b.ts''"
  "path_join ''/w'' ''src/notes.txt'' = ''/w/src/notes.txt''"
  by (simp_all add: path_join_def normalize_path_def)


section \<open>Correctness of the cycle search\<close>




lemma hasCycle_Suc_new:
  assumes "stepId \<notin> recursionStack" and "stepId \<notin> visited"
    and "find (\<lambda>s. step_id s = stepId) steps = Some step"
  shows "hasCycle steps (Suc frames) stepId (visited, recursionStack) =
     (case hasCycleDeps steps frames (dependencies step) (insert stepId visited, insert stepId recursionStack) of
        Inl e \<Rightarrow> Inl e
      | Inr r \<Rightarrow> Inr (if fst r then (True, snd r) else (False, fst (snd r), snd (snd r) - {stepId})))"
  using assms by (simp add: case_prod_beta split: sum.splits)

lemma hasCycleDeps_Cons:
  "hasCycleDeps steps frames (depId # rest) st =
     (case hasCycle steps frames depId st of
        Inl e \<Rightarrow> Inl e
      | Inr r \<Rightarrow> if fst r then Inr (True, snd r) else hasCycleDeps steps frames rest (snd r))"
  by (simp add: case_prod_beta split: sum.splits)










section \<open>Properties of the transaction service\<close>

subsection \<open>Inserting a line\<close>











subsection \<open>Evaluating the example transactions\<close>

lemmas run_defs =
  executeTransaction_def createBackups_def validateChange_def applyFileChange_def applyUpdate_def
  writeFile_def deleteFile_def readFile_def exists_def getAbsolutePath_def
  rollbackTransaction_def restoreFile_def updateJournal_def pushOperation_def setStatus_def
  allowed_examples path_join_examples Let_def

subsection \<open>What validation does\<close>

lemma validateChanges_map:
  "validateChanges root fs cs =
     (map (\<lambda>c. fst (validateChange root fs c)) cs, map (\<lambda>c. snd (validateChange root fs c)) cs)"
  by (induction cs) (simp_all add: case_prod_beta)

lemma readFile_exists:
  "isPathAllowed allowedPaths p \<Longrightarrow> (\<exists>c. readFile root fs p = Inr c) \<longleftrightarrow> exists root fs p"
  by (auto simp: readFile_def exists_def getAbsolutePath_def split: option.splits)

lemma validateChange_valid:
  "valid (fst (validateChange root fs c)) \<longleftrightarrow>
     isPathAllowed allowedPaths (c_file c)
     \<and> (op c = Update \<longrightarrow> exists root fs (c_file c))
     \<and> (applyMethod c = Diff \<and> truthy (diff c) \<and> \<not> validateDiff (c_file c) (orEmpty (diff c))
          \<longrightarrow> truthy (content c))"
proof (cases "isPathAllowed allowedPaths (c_file c)")
  case False
  then show ?thesis by (simp add: validateChange_def)
next
  case True
  show ?thesis
  proof (cases "op c = Update")
    case False
    with True show ?thesis by (simp add: validateChange_def Let_def)
  next
    case upd: True
    show ?thesis
    proof (cases "exists root fs (c_file c)")
      case True
      then obtain x where "readFile root fs (c_file c) = Inr x"
        using readFile_exists [OF \<open>isPathAllowed allowedPaths (c_file c)\<close>] by blast
      with True upd \<open>isPathAllowed allowedPaths (c_file c)\<close> show ?thesis
        by (simp add: validateChange_def Let_def)
    next
      case False
      then obtain e where "readFile root fs (c_file c) = Inl e"
        using readFile_exists [OF \<open>isPathAllowed allowedPaths (c_file c)\<close>, of root fs]
        by (cases "readFile root fs (c_file c)") auto
      with False upd \<open>isPathAllowed allowedPaths (c_file c)\<close> show ?thesis
        by (simp add: validateChange_def Let_def)
    qed
  qed
qed

lemma updateJournal_disk: "disk (updateJournal txnId f st) = disk st"
  by (simp add: updateJournal_def split: option.splits)

lemma updateJournal_backups: "backups (updateJournal txnId f st) = backups st"
  by (simp add: updateJournal_def split: option.splits)

lemma createBackups_disk: "disk (createBackups root txnId cs st) = disk st"
  by (simp add: createBackups_def)

lemma createBackups_journal:
  "activeTransactions (createBackups root txnId cs st) = activeTransactions st"
  by (simp add: createBackups_def)

lemmas state_simps =
  updateJournal_disk updateJournal_backups createBackups_disk createBackups_journal

text \<open>
  Claim C2, amended. Before it applies any change, \<open>executeTransaction\<close> validates
  every change against the workspace as it is then, with the checks of
  \<open>validateChanges\<close>: the path must pass the path policy; the target of an update must
  be readable, that is, exist; a change with a diff text that fails the structural check
  must carry content to fall back on. These are not the checks of \<open>validateFileChange\<close>:
  that a created file does not exist yet, that a deleted or renamed file exists and that
  a rename has a new path is not looked at. If some change is invalid, the transaction
  fails with the messages of all invalid changes joined by a comma, and the workspace is
  as it was.
\<close>

theorem executeTransaction_validation_gate:
  "(valid (fst (validateChange root fs c)) \<longleftrightarrow>
      isPathAllowed allowedPaths (c_file c)
      \<and> (op c = Update \<longrightarrow> exists root fs (c_file c))
      \<and> (applyMethod c = Diff \<and> truthy (diff c) \<and> \<not> validateDiff (c_file c) (orEmpty (diff c))
           \<longrightarrow> truthy (content c)))
   \<and> ((\<exists>c \<in> set changes. \<not> valid (fst (validateChange root (disk st) c))) \<longrightarrow>
        fst (fst (executeTransaction root pid txnId changes options st)) =
          Inl (Error (''Validation failed: '' @ joinWith '', ''
                (map (\<lambda>r. orEmpty (error r))
                   (filter (\<lambda>r. \<not> valid r)
                      (map (\<lambda>c. fst (validateChange root (disk st) c)) changes)))))
        \<and> disk (snd (fst (executeTransaction root pid txnId changes options st))) = disk st)"
proof (intro conjI impI)
  show "valid (fst (validateChange root fs c)) \<longleftrightarrow>
      isPathAllowed allowedPaths (c_file c)
      \<and> (op c = Update \<longrightarrow> exists root fs (c_file c))
      \<and> (applyMethod c = Diff \<and> truthy (diff c) \<and> \<not> validateDiff (c_file c) (orEmpty (diff c))
           \<longrightarrow> truthy (content c))"
    by (rule validateChange_valid)
next
  assume inv: "\<exists>c \<in> set changes. \<not> valid (fst (validateChange root (disk st) c))"
  then have ex: "list_ex (\<lambda>r. \<not> valid r) (map (\<lambda>c. fst (validateChange root (disk st) c)) changes)"
    by (auto simp: list_ex_iff)
  show "fst (fst (executeTransaction root pid txnId changes options st)) =
          Inl (Error (''Validation failed: '' @ joinWith '', ''
                (map (\<lambda>r. orEmpty (error r))
                   (filter (\<lambda>r. \<not> valid r)
                      (map (\<lambda>c. fst (validateChange root (disk st) c)) changes)))))"
    using ex
    by (simp add: executeTransaction_def Let_def validateChanges_map setStatus_def state_simps)
  show "disk (snd (fst (executeTransaction root pid txnId changes options st))) = disk st"
    using ex
    by (simp add: executeTransaction_def Let_def validateChanges_map setStatus_def state_simps)
qed

text \<open>
  Claim C2, as stated, has the transaction re-run the checks of \<open>validateFileChange\<close>
  and fail before any write when one of them fails. A create change for a file that
  exists fails \<open>validateFileChange\<close>; the transaction accepts it and overwrites the
  file.
\<close>

theorem executeTransaction_validation_counterexample:
  "op createB = Create
   \<and> exists ''/w'' [''/w/src/b.ts'' \<mapsto> ''old''] (c_file createB)
   \<and> \<not> valid (validateFileChange ''/w'' [''/w/src/b.ts'' \<mapsto> ''old''] createB)
   \<and> fst (fst (executeTransaction ''/w'' ''plan'' ''txn'' [createB] realRun
            (stateWith [''/w/src/b.ts'' \<mapsto> ''old''])))
       = Inr \<lparr>success = True, appliedFiles = [''src/b.ts''], errors = []\<rparr>
   \<and> disk (snd (fst (executeTransaction ''/w'' ''plan'' ''txn'' [createB] realRun
            (stateWith [''/w/src/b.ts'' \<mapsto> ''old'']))))
        ''/w/src/b.ts'' = Some ''new''"
  by (simp add: run_defs validateFileChange_def createB_def stateWith_def realRun_def)

theorem executeTransaction_validation_gate_witness:
  "\<not> isPathAllowed allowedPaths (c_file createPasswd)
   \<and> \<not> valid (fst (validateChange ''/w'' (disk (stateWith Map.empty)) createPasswd))
   \<and> fst (fst (executeTransaction ''/w'' ''plan'' ''txn'' [createA, createPasswd, updateB] realRun
            (stateWith Map.empty)))
       = Inl (Error ''Validation failed: Path not allowed, Failed to read file: src/b.ts'')
   \<and> disk (snd (fst (executeTransaction ''/w'' ''plan'' ''txn'' [createA, createPasswd, updateB] realRun
            (stateWith Map.empty))))
       = disk (stateWith Map.empty)"
proof -
  let ?st = "stateWith Map.empty"
  have na: "\<not> isPathAllowed allowedPaths (c_file createPasswd)"
    by (simp add: createPasswd_def allowed_examples)
  from executeTransaction_validation_gate [where root = "''/w''" and fs = "disk ?st" and c = createPasswd,
      THEN conjunct1] na
  have inv: "\<not> valid (fst (validateChange ''/w'' (disk ?st) createPasswd))" by simp
  then have ex: "\<exists>c \<in> set [createA, createPasswd, updateB].
      \<not> valid (fst (validateChange ''/w'' (disk ?st) c))" by simp
  note gate = executeTransaction_validation_gate [where changes = "[createA, createPasswd, updateB]"
      and root = "''/w''" and st = ?st and pid = "''plan''" and txnId = "''txn''" and options = realRun,
      THEN conjunct2, THEN mp, OF ex]
  have msg: "joinWith '', ''
      (map (\<lambda>r. orEmpty (error r))
         (filter (\<lambda>r. \<not> valid r)
            (map (\<lambda>c. fst (validateChange ''/w'' (disk ?st) c)) [createA, createPasswd, updateB])))
      = ''Path not allowed, Failed to read file: src/b.ts''"
    by (simp add: run_defs createA_def createPasswd_def updateB_def stateWith_def)
  from gate have "fst (fst (executeTransaction ''/w'' ''plan'' ''txn'' [createA, createPasswd, updateB] realRun ?st))
       = Inl (Error ''Validation failed: Path not allowed, Failed to read file: src/b.ts'')"
    and "disk (snd (fst (executeTransaction ''/w'' ''plan'' ''txn'' [createA, createPasswd, updateB] realRun ?st)))
       = disk ?st"
    unfolding msg by simp_all
  with na inv show ?thesis by (intro conjI)
qed

subsection \<open>Rollback\<close>

text \<open>
  Claim C1 asks that after a transaction with backups in which a change failed, every
  file has the content it had before, a file created by an earlier change being removed
  again. \<open>createBackups\<close> records the targets of update and delete changes only, so
  the rollback knows nothing of a created file. The transaction below creates
  \<open>src/a.ts\<close> and then deletes \<open>src/b.ts\<close>, which does not exist, in an empty
  workspace: the delete fails, the transaction is reported as rolled back, and
  \<open>src/a.ts\<close>, which did not exist before, is still there.
\<close>

theorem executeTransaction_rollback_keeps_created_file:
  "disk (stateWith Map.empty) ''/w/src/a.ts'' = None
   \<and> fst (fst (executeTransaction ''/w'' ''plan'' ''txn'' [createA, deleteB] realRun (stateWith Map.empty)))
       = Inl (Error ''Transaction failed and rolled back: Failed to apply change to src/b.ts: Failed to delete file: src/b.ts'')
   \<and> disk (snd (fst (executeTransaction ''/w'' ''plan'' ''txn'' [createA, deleteB] realRun (stateWith Map.empty))))
        ''/w/src/a.ts'' = Some ''x''"
  by (simp add: run_defs createA_def deleteB_def stateWith_def realRun_def)

text \<open>
  A create change whose target exists does not fail either: validation does not look at
  it and \<open>writeFile\<close> overwrites the file.
\<close>

lemma executeTransaction_create_existing:
  "fst (fst (executeTransaction ''/w'' ''plan'' ''txn'' [createA, createB] realRun
          (stateWith [''/w/src/b.ts'' \<mapsto> ''old''])))
     = Inr \<lparr>success = True, appliedFiles = [''src/a.ts'', ''src/b.ts''], errors = []\<rparr>
   \<and> disk (snd (fst (executeTransaction ''/w'' ''plan'' ''txn'' [createA, createB] realRun
          (stateWith [''/w/src/b.ts'' \<mapsto> ''old'']))))
        ''/w/src/b.ts'' = Some ''new''"
  by (simp add: run_defs createA_def createB_def stateWith_def realRun_def)

subsection \<open>Dry run\<close>

lemma pushOperation_simps:
  "disk (pushOperation txnId entry st) = disk st"
  "backups (pushOperation txnId entry st) = backups st"
  "activeTransactions st txnId = Some j \<Longrightarrow>
   activeTransactions (pushOperation txnId entry st) txnId = Some (j\<lparr>operations := operations j @ [entry]\<rparr>)"
  by (simp_all add: pushOperation_def updateJournal_def split: option.splits)

lemma applyLoop_dryRun:
  assumes "opt_dryRun options" and "activeTransactions st txnId = Some j"
  shows "\<exists>applied' errs' st' ops.
      applyLoop root txnId options cs applied errs st = (Inr (applied', errs'), st')
      \<and> disk st' = snd (attemptAll root options (disk st) cs)
      \<and> backups st' = backups st
      \<and> activeTransactions st' txnId = Some (j\<lparr>operations := operations j @ ops\<rparr>)
      \<and> map j_type ops = replicate (length cs) ApplyOp
      \<and> map j_file ops = map c_file cs
      \<and> map j_success ops = fst (attemptAll root options (disk st) cs)
      \<and> applied' = applied @ map j_file (filter j_success ops)
      \<and> length errs' = length errs + length (filter (\<lambda>x. \<not> j_success x) ops)"
  using assms(2)
proof (induction cs arbitrary: applied errs st j)
  case Nil
  show ?case
    by (rule exI [of _ applied], rule exI [of _ errs], rule exI [of _ st], rule exI [of _ "[]"])
       (use Nil in simp)
next
  case (Cons c cs)
  show ?case
  proof (cases "applyFileChange root (disk st) c options")
    case (Inr d')
    let ?o = "\<lparr>j_type = ApplyOp, j_file = c_file c, j_success = True, j_error = None\<rparr>"
    let ?st = "pushOperation txnId ?o (st\<lparr>disk := d'\<rparr>)"
    let ?j = "j\<lparr>operations := operations j @ [?o]\<rparr>"
    have j': "activeTransactions ?st txnId = Some ?j"
      using Cons.prems by (simp add: pushOperation_simps)
    from Cons.IH [OF j', of "applied @ [c_file c]" errs]
    obtain applied' errs' st' ops where
      run: "applyLoop root txnId options cs (applied @ [c_file c]) errs ?st = (Inr (applied', errs'), st')"
      and dk: "disk st' = snd (attemptAll root options (disk ?st) cs)"
      and bk: "backups st' = backups ?st"
      and jn: "activeTransactions st' txnId = Some (?j\<lparr>operations := operations ?j @ ops\<rparr>)"
      and ty: "map j_type ops = replicate (length cs) ApplyOp"
      and fl: "map j_file ops = map c_file cs"
      and su: "map j_success ops = fst (attemptAll root options (disk ?st) cs)"
      and ap: "applied' = (applied @ [c_file c]) @ map j_file (filter j_success ops)"
      and er: "length errs' = length errs + length (filter (\<lambda>x. \<not> j_success x) ops)"
      by blast
    show ?thesis
      by (rule exI [of _ applied'], rule exI [of _ errs'], rule exI [of _ st'], rule exI [of _ "?o # ops"])
         (use run dk bk jn ty fl su ap er Inr in \<open>simp add: pushOperation_simps\<close>)
  next
    case (Inl e)
    let ?msg = "''Failed to apply change to '' @ c_file c @ '': '' @ message e"
    let ?o = "\<lparr>j_type = ApplyOp, j_file = c_file c, j_success = False, j_error = Some ?msg\<rparr>"
    let ?st = "pushOperation txnId ?o st"
    let ?j = "j\<lparr>operations := operations j @ [?o]\<rparr>"
    have j': "activeTransactions ?st txnId = Some ?j"
      using Cons.prems by (simp add: pushOperation_simps)
    from Cons.IH [OF j', of applied "errs @ [?msg]"]
    obtain applied' errs' st' ops where
      run: "applyLoop root txnId options cs applied (errs @ [?msg]) ?st = (Inr (applied', errs'), st')"
      and dk: "disk st' = snd (attemptAll root options (disk ?st) cs)"
      and bk: "backups st' = backups ?st"
      and jn: "activeTransactions st' txnId = Some (?j\<lparr>operations := operations ?j @ ops\<rparr>)"
      and ty: "map j_type ops = replicate (length cs) ApplyOp"
      and fl: "map j_file ops = map c_file cs"
      and su: "map j_success ops = fst (attemptAll root options (disk ?st) cs)"
      and ap: "applied' = applied @ map j_file (filter j_success ops)"
      and er: "length errs' = length (errs @ [?msg]) + length (filter (\<lambda>x. \<not> j_success x) ops)"
      by blast
    show ?thesis
      by (rule exI [of _ applied'], rule exI [of _ errs'], rule exI [of _ st'], rule exI [of _ "?o # ops"])
         (use run dk bk jn ty fl su ap er Inl assms(1) in \<open>simp add: Let_def pushOperation_simps\<close>)
  qed
qed

lemma validateChange_file: "c_file (snd (validateChange root fs c)) = c_file c"
  by (simp add: validateChange_def Let_def split: sum.splits)

lemma setStatus_journal:
  "activeTransactions st txnId = Some j \<Longrightarrow>
   activeTransactions (setStatus txnId s st) txnId = Some (j\<lparr>status := s\<rparr>)"
  by (simp add: setStatus_def updateJournal_def)

text \<open>
  What the option \<open>dryRun\<close> does. In a transaction with \<open>dryRun\<close> whose changes pass
  validation, a failing change triggers no rollback and does not stop the loop: the
  method returns a result, the journal is \<open>completed\<close> and holds one \<open>apply\<close> record
  for every change, in order, and no other record; \<open>appliedFiles\<close> lists the files of
  the changes that succeeded and \<open>errors\<close> has one entry for each that failed. Every
  change is applied as in a real run, \<open>applyFileChange\<close> never reads the option: the
  workspace ends as \<open>attemptAll\<close> leaves it.
\<close>

lemma executeTransaction_dryRun_course:
  assumes "opt_dryRun options"
    and "\<forall>c \<in> set changes. valid (fst (validateChange root (disk st) c))"
  shows "\<exists>r st' j.
      fst (executeTransaction root pid txnId changes options st) = (Inr r, st')
      \<and> activeTransactions st' txnId = Some j
      \<and> status j = completed
      \<and> map j_type (operations j) = replicate (length changes) ApplyOp
      \<and> map j_file (operations j) = map c_file changes
      \<and> map j_success (operations j)
          = fst (attemptAll root options (disk st)
                  (snd (executeTransaction root pid txnId changes options st)))
      \<and> disk st'
          = snd (attemptAll root options (disk st)
                  (snd (executeTransaction root pid txnId changes options st)))
      \<and> appliedFiles r = map j_file (filter j_success (operations j))
      \<and> length (errors r) = length (filter (\<lambda>x. \<not> j_success x) (operations j))
      \<and> success r = (errors r = [])"
proof -
  let ?j0 = "\<lparr>planId = pid, operations = [], status = pending\<rparr>"
  let ?st0 = "st\<lparr>activeTransactions := (activeTransactions st)(txnId \<mapsto> ?j0)\<rparr>"
  let ?st1 = "if opt_createBackups options then createBackups root txnId changes ?st0 else ?st0"
  let ?cs = "map (\<lambda>c. snd (validateChange root (disk st) c)) changes"
  have d1: "disk ?st1 = disk st" by (simp add: state_simps)
  have j1: "activeTransactions ?st1 txnId = Some ?j0" by (simp add: state_simps)
  have ok: "\<not> list_ex (\<lambda>r. \<not> valid r) (map (\<lambda>c. fst (validateChange root (disk st) c)) changes)"
    using assms(2) by (simp add: list_ex_iff)
  from applyLoop_dryRun [OF assms(1) j1, of root ?cs "[]" "[]"]
  obtain applied' errs' st2 ops where
    run: "applyLoop root txnId options ?cs [] [] ?st1 = (Inr (applied', errs'), st2)"
    and dk: "disk st2 = snd (attemptAll root options (disk ?st1) ?cs)"
    and jn: "activeTransactions st2 txnId = Some (?j0\<lparr>operations := operations ?j0 @ ops\<rparr>)"
    and ty: "map j_type ops = replicate (length ?cs) ApplyOp"
    and fl: "map j_file ops = map c_file ?cs"
    and su: "map j_success ops = fst (attemptAll root options (disk ?st1) ?cs)"
    and ap: "applied' = [] @ map j_file (filter j_success ops)"
    and er: "length errs' = length ([]::string list) + length (filter (\<lambda>x. \<not> j_success x) ops)"
    by blast
  let ?r = "\<lparr>success = (errs' = []), appliedFiles = applied', errors = errs'\<rparr>"
  let ?st' = "setStatus txnId completed st2"
  let ?j = "\<lparr>planId = pid, operations = ops, status = completed\<rparr>"
  have res: "executeTransaction root pid txnId changes options st = ((Inr ?r, ?st'), ?cs)"
    using ok run by (simp add: executeTransaction_def Let_def validateChanges_map d1)
  have j': "activeTransactions ?st' txnId = Some ?j"
    using setStatus_journal [OF jn, of completed] by simp
  have files: "map c_file ?cs = map c_file changes" by (simp add: comp_def validateChange_file)
  show ?thesis
    by (rule exI [of _ ?r], rule exI [of _ ?st'], rule exI [of _ ?j])
       (use j' dk ty fl su ap er files in \<open>simp add: res d1 setStatus_def state_simps\<close>)
qed

text \<open>
  Claim C6. A transaction run with \<open>dryRun\<close> is to leave the filesystem as it is: the
  option is called \<open>dryRun\<close> and the plan review dialog offers it as
  \<open>Dry run only\<close>. \<open>executeTransaction\<close> reads the option in one place, to skip the
  rollback and the exception after a failed change; the changes themselves are applied.
  On the empty workspace, with \<open>dryRun\<close> set, creating \<open>src/a.ts\<close> and then
  deleting the missing \<open>src/b.ts\<close> returns a result with one applied file and one
  error, and \<open>src/a.ts\<close>, which did not exist before, has been written.
\<close>

theorem executeTransaction_dryRun_writes:
  "opt_dryRun dryRunOpts
   \<and> disk (stateWith Map.empty) ''/w/src/a.ts'' = None
   \<and> fst (fst (executeTransaction ''/w'' ''plan'' ''txn'' [createA, deleteB] dryRunOpts (stateWith Map.empty)))
       = Inr \<lparr>success = False, appliedFiles = [''src/a.ts''],
              errors = [''Failed to apply change to src/b.ts: Failed to delete file: src/b.ts'']\<rparr>
   \<and> disk (snd (fst (executeTransaction ''/w'' ''plan'' ''txn'' [createA, deleteB] dryRunOpts
                (stateWith Map.empty)))) ''/w/src/a.ts'' = Some ''x''"
  by (simp add: run_defs createA_def deleteB_def stateWith_def dryRunOpts_def)

section \<open>Properties of the apply route\<close>

lemma executeTransaction_changes:
  "snd (executeTransaction root pid txnId cs options st) =
     map (\<lambda>c. snd (validateChange root (disk st) c)) cs"
  by (simp add: executeTransaction_def Let_def validateChanges_map state_simps
      split: prod.splits sum.splits)

lemma writeBack_map_filter:
  "writeBack P cs (map f (filter P cs)) = map (\<lambda>c. if P c then f c else c) cs"
  by (induction cs) simp_all

lemma validateChange_change:
  "snd (validateChange root fs c) =
     (if applyMethod c = Diff \<and> truthy (diff c) \<and> \<not> validateDiff (c_file c) (orEmpty (diff c))
         \<and> isPathAllowed allowedPaths (c_file c)
         \<and> (op c = Update \<longrightarrow> exists root fs (c_file c))
      then c\<lparr>applyMethod := ReplaceFile\<rparr> else c)"
proof (cases "isPathAllowed allowedPaths (c_file c)")
  case False
  then show ?thesis by (simp add: validateChange_def)
next
  case allowed: True
  show ?thesis
  proof (cases "op c = Update")
    case False
    with allowed show ?thesis by (simp add: validateChange_def Let_def)
  next
    case upd: True
    show ?thesis
    proof (cases "exists root fs (c_file c)")
      case True
      then obtain x where "readFile root fs (c_file c) = Inr x"
        using readFile_exists [OF allowed] by blast
      with True upd allowed show ?thesis
        by (simp add: validateChange_def Let_def)
    next
      case False
      then obtain e where "readFile root fs (c_file c) = Inl e"
        using readFile_exists [OF allowed, of root fs]
        by (cases "readFile root fs (c_file c)") auto
      with False upd allowed show ?thesis
        by (simp add: validateChange_def Let_def)
    qed
  qed
qed

lemma applyPlanRoute_changes:
  assumes "activePlans sv pid = Some plan"
  shows "activePlans (snd (applyPlanRoute root pid request txnId sv)) pid =
     Some (plan\<lparr>plan_changes :=
        map (\<lambda>c. if selects request c then snd (validateChange root (disk (txnState sv)) c) else c)
          (plan_changes plan)\<rparr>)"
proof -
  let ?f = "\<lambda>c. snd (validateChange root (disk (txnState sv)) c)"
  show ?thesis
  proof (cases "selectedFiles request")
    case None
    with assms show ?thesis
      by (simp add: applyPlanRoute_def getPlan_def Let_def case_prod_beta executeTransaction_changes
          selects_def)
  next
    case (Some sel)
    show ?thesis
    proof (cases "sel = []")
      case True
      with Some assms show ?thesis
        by (simp add: applyPlanRoute_def getPlan_def Let_def case_prod_beta executeTransaction_changes
            selects_def)
    next
      case False
      with Some assms show ?thesis
        by (simp add: applyPlanRoute_def getPlan_def Let_def case_prod_beta executeTransaction_changes
            writeBack_map_filter selects_def)
    qed
  qed
qed

lemma validateChange_not_diff:
  "applyMethod c \<noteq> Diff \<Longrightarrow> snd (validateChange root fs c) = c"
  by (simp add: validateChange_change)

text \<open>
  Claim C10, amended. Validation changes its input, and the change is kept in the plan
  store. Take a stored plan and any of its changes. After the apply route has run,
  whatever the transaction did, the stored plan has the same number of changes, and the
  change is the one it was with apply method \<open>replaceFile\<close> if the request selects it,
  its apply method is \<open>diff\<close>, its diff text is not empty and fails the structural
  check, its path passes the path policy and, for an update, its target exists when the
  plan is applied; whether it carries content does not matter. Every other change is
  left as it was: one the request does not select, one whose path is refused, whose
  update target is missing, whose diff text is empty or passes the check. A change that
  has been set to \<open>replaceFile\<close> is applied as such from then on: as an update it
  writes its content, or fails for want of content, and every later run of the route on
  the plan finds and leaves it with apply method \<open>replaceFile\<close>.
\<close>

theorem applyPlanRoute_fallback_persists:
  assumes "activePlans sv pid = Some plan" and "i < length (plan_changes plan)"
  shows "\<exists>plan'.
      activePlans (snd (applyPlanRoute root pid request txnId sv)) pid = Some plan'
      \<and> length (plan_changes plan') = length (plan_changes plan)
      \<and> plan_changes plan' ! i =
          (if selects request (plan_changes plan ! i)
              \<and> applyMethod (plan_changes plan ! i) = Diff
              \<and> truthy (diff (plan_changes plan ! i))
              \<and> \<not> validateDiff (c_file (plan_changes plan ! i)) (orEmpty (diff (plan_changes plan ! i)))
              \<and> isPathAllowed allowedPaths (c_file (plan_changes plan ! i))
              \<and> (op (plan_changes plan ! i) = Update \<longrightarrow>
                    exists root (disk (txnState sv)) (c_file (plan_changes plan ! i)))
           then (plan_changes plan ! i)\<lparr>applyMethod := ReplaceFile\<rparr>
           else plan_changes plan ! i)
      \<and> (plan_changes plan' ! i = (plan_changes plan ! i)\<lparr>applyMethod := ReplaceFile\<rparr> \<longrightarrow>
           (\<forall>fs. applyUpdate root fs (plan_changes plan' ! i) =
              (if truthy (content (plan_changes plan ! i))
               then writeFile root fs (c_file (plan_changes plan ! i))
                      (orEmpty (content (plan_changes plan ! i)))
               else Inl (Error ''Content required for replaceFile method'')))
           \<and> (\<forall>request' txnId'. \<exists>plan''.
                 activePlans (snd (applyPlanRoute root pid request' txnId'
                                     (snd (applyPlanRoute root pid request txnId sv)))) pid = Some plan''
                 \<and> plan_changes plan'' ! i = (plan_changes plan ! i)\<lparr>applyMethod := ReplaceFile\<rparr>))"
proof -
  let ?c = "plan_changes plan ! i"
  let ?f = "\<lambda>c. if selects request c then snd (validateChange root (disk (txnState sv)) c) else c"
  let ?plan' = "plan\<lparr>plan_changes := map ?f (plan_changes plan)\<rparr>"
  let ?sv' = "snd (applyPlanRoute root pid request txnId sv)"
  have stored: "activePlans ?sv' pid = Some ?plan'"
    using applyPlanRoute_changes [OF assms(1)] .
  have len: "length (plan_changes ?plan') = length (plan_changes plan)" by simp
  have nth: "plan_changes ?plan' ! i =
      (if selects request ?c \<and> applyMethod ?c = Diff \<and> truthy (diff ?c)
          \<and> \<not> validateDiff (c_file ?c) (orEmpty (diff ?c))
          \<and> isPathAllowed allowedPaths (c_file ?c)
          \<and> (op ?c = Update \<longrightarrow> exists root (disk (txnState sv)) (c_file ?c))
       then ?c\<lparr>applyMethod := ReplaceFile\<rparr> else ?c)"
    using assms(2) by (simp add: validateChange_change)
  have later: "plan_changes ?plan' ! i = ?c\<lparr>applyMethod := ReplaceFile\<rparr> \<longrightarrow>
      (\<forall>fs. applyUpdate root fs (plan_changes ?plan' ! i) =
         (if truthy (content ?c) then writeFile root fs (c_file ?c) (orEmpty (content ?c))
          else Inl (Error ''Content required for replaceFile method'')))
      \<and> (\<forall>request' txnId'. \<exists>plan''.
            activePlans (snd (applyPlanRoute root pid request' txnId' ?sv')) pid = Some plan''
            \<and> plan_changes plan'' ! i = ?c\<lparr>applyMethod := ReplaceFile\<rparr>)"
  proof (intro impI conjI allI)
    fix fs
    assume eq: "plan_changes ?plan' ! i = ?c\<lparr>applyMethod := ReplaceFile\<rparr>"
    show "applyUpdate root fs (plan_changes ?plan' ! i) =
         (if truthy (content ?c) then writeFile root fs (c_file ?c) (orEmpty (content ?c))
          else Inl (Error ''Content required for replaceFile method''))"
      unfolding eq by (simp add: applyUpdate_def)
  next
    fix request' txnId'
    assume eq: "plan_changes ?plan' ! i = ?c\<lparr>applyMethod := ReplaceFile\<rparr>"
    let ?g = "\<lambda>c. if selects request' c then snd (validateChange root (disk (txnState ?sv')) c) else c"
    have "activePlans (snd (applyPlanRoute root pid request' txnId' ?sv')) pid
        = Some (?plan'\<lparr>plan_changes := map ?g (plan_changes ?plan')\<rparr>)"
      using applyPlanRoute_changes [OF stored] .
    moreover have "plan_changes (?plan'\<lparr>plan_changes := map ?g (plan_changes ?plan')\<rparr>) ! i
        = ?c\<lparr>applyMethod := ReplaceFile\<rparr>"
    proof -
      have "plan_changes (?plan'\<lparr>plan_changes := map ?g (plan_changes ?plan')\<rparr>) ! i
          = ?g (plan_changes ?plan' ! i)"
        using assms(2) by simp
      also have "\<dots> = ?c\<lparr>applyMethod := ReplaceFile\<rparr>"
        unfolding eq by (simp add: validateChange_not_diff)
      finally show ?thesis .
    qed
    ultimately show "\<exists>plan''.
        activePlans (snd (applyPlanRoute root pid request' txnId' ?sv')) pid = Some plan''
        \<and> plan_changes plan'' ! i = ?c\<lparr>applyMethod := ReplaceFile\<rparr>"
      by blast
  qed
  from stored len nth later show ?thesis
    by (intro exI [of _ ?plan'] conjI)
qed

text \<open>
  Claim C10, as stated, has every change with apply method \<open>diff\<close>, a diff text that
  fails the structural check and content set to \<open>replaceFile\<close>. \<open>badDiffUpdate\<close> is
  such a change; in a workspace without its target the read of the target fails first,
  the round ends there, and the change, also the one in the plan store, keeps its apply
  method.
\<close>

theorem applyPlanRoute_fallback_counterexample:
  "applyMethod badDiffUpdate = Diff
   \<and> diff badDiffUpdate = Some ''not a diff''
   \<and> \<not> validateDiff (c_file badDiffUpdate) ''not a diff''
   \<and> truthy (content badDiffUpdate)
   \<and> snd (validateChanges ''/w'' Map.empty [badDiffUpdate]) = [badDiffUpdate]
   \<and> map_option plan_changes
        (activePlans (snd (applyPlanRoute ''/w'' ''plan'' applyAll ''txn''
            (servicesWith Map.empty [badDiffUpdate]))) ''plan'')
       = Some [badDiffUpdate]"
  by (simp add: badDiffUpdate_def validateDiff_def applyPlanRoute_def getPlan_def servicesWith_def
      planWith_def applyAll_def executeTransaction_changes case_prod_beta run_defs
      stateWith_def realRun_def)

theorem applyPlanRoute_fallback_persists_witness:
  "activePlans (servicesWith [''/w/src/b.ts'' \<mapsto> ''old''] [badDiffUpdate]) ''plan''
      = Some (planWith [] [badDiffUpdate])
   \<and> 0 < length (plan_changes (planWith [] [badDiffUpdate]))
   \<and> selects applyAll badDiffUpdate
   \<and> applyMethod badDiffUpdate = Diff
   \<and> truthy (diff badDiffUpdate)
   \<and> \<not> validateDiff (c_file badDiffUpdate) (orEmpty (diff badDiffUpdate))
   \<and> isPathAllowed allowedPaths (c_file badDiffUpdate)
   \<and> exists ''/w'' [''/w/src/b.ts'' \<mapsto> ''old''] (c_file badDiffUpdate)
   \<and> (\<exists>plan'.
        activePlans (snd (applyPlanRoute ''/w'' ''plan'' applyAll ''txn''
            (servicesWith [''/w/src/b.ts'' \<mapsto> ''old''] [badDiffUpdate]))) ''plan'' = Some plan'
        \<and> plan_changes plan' = [badDiffUpdate\<lparr>applyMethod := ReplaceFile\<rparr>]
        \<and> applyUpdate ''/w'' Map.empty (plan_changes plan' ! 0)
            = writeFile ''/w'' Map.empty ''src/b.ts'' ''new''
        \<and> (\<exists>plan''.
              activePlans (snd (applyPlanRoute ''/w'' ''plan'' applyAll ''txn2''
                  (snd (applyPlanRoute ''/w'' ''plan'' applyAll ''txn''
                     (servicesWith [''/w/src/b.ts'' \<mapsto> ''old''] [badDiffUpdate]))))) ''plan''
                = Some plan''
              \<and> plan_changes plan'' ! 0 = badDiffUpdate\<lparr>applyMethod := ReplaceFile\<rparr>))"
proof -
  let ?d = "[''/w/src/b.ts'' \<mapsto> ''old'']"
  let ?sv = "servicesWith ?d [badDiffUpdate]"
  let ?plan = "planWith [] [badDiffUpdate]"
  let ?sv' = "snd (applyPlanRoute ''/w'' ''plan'' applyAll ''txn'' ?sv)"
  have plan: "activePlans ?sv ''plan'' = Some ?plan"
    by (simp add: servicesWith_def)
  have i: "0 < length (plan_changes ?plan)" and c: "plan_changes ?plan ! 0 = badDiffUpdate"
    by (simp_all add: planWith_def)
  have sel: "selects applyAll badDiffUpdate" by (simp add: selects_def applyAll_def)
  have m: "applyMethod badDiffUpdate = Diff" and d: "truthy (diff badDiffUpdate)"
    and bad: "\<not> validateDiff (c_file badDiffUpdate) (orEmpty (diff badDiffUpdate))"
    and al: "isPathAllowed allowedPaths (c_file badDiffUpdate)"
    and ex: "exists ''/w'' ?d (c_file badDiffUpdate)"
    and ct: "truthy (content badDiffUpdate)" "c_file badDiffUpdate = ''src/b.ts''"
      "orEmpty (content badDiffUpdate) = ''new''"
    by (simp_all add: badDiffUpdate_def validateDiff_def run_defs stateWith_def)
  have dk: "disk (txnState ?sv) = ?d" by (simp add: servicesWith_def stateWith_def)
  from applyPlanRoute_fallback_persists [OF plan i, of "''/w''" applyAll "''txn''", unfolded c dk]
    sel m d bad al ex ct
  obtain plan' where p: "activePlans ?sv' ''plan'' = Some plan'"
    and l: "length (plan_changes plan') = length (plan_changes ?plan)"
    and n: "plan_changes plan' ! 0 = badDiffUpdate\<lparr>applyMethod := ReplaceFile\<rparr>"
    and u: "\<forall>fs. applyUpdate ''/w'' fs (plan_changes plan' ! 0) = writeFile ''/w'' fs ''src/b.ts'' ''new''"
    and r: "\<forall>request' txnId'. \<exists>plan''.
        activePlans (snd (applyPlanRoute ''/w'' ''plan'' request' txnId' ?sv')) ''plan'' = Some plan''
        \<and> plan_changes plan'' ! 0 = badDiffUpdate\<lparr>applyMethod := ReplaceFile\<rparr>"
    by auto
  from l n have cs: "plan_changes plan' = [badDiffUpdate\<lparr>applyMethod := ReplaceFile\<rparr>]"
    by (cases "plan_changes plan'") (simp_all add: planWith_def)
  from u have u0: "applyUpdate ''/w'' Map.empty (plan_changes plan' ! 0)
      = writeFile ''/w'' Map.empty ''src/b.ts'' ''new''" by (rule spec)
  from r have r0: "\<exists>plan''.
      activePlans (snd (applyPlanRoute ''/w'' ''plan'' applyAll ''txn2'' ?sv')) ''plan'' = Some plan''
      \<and> plan_changes plan'' ! 0 = badDiffUpdate\<lparr>applyMethod := ReplaceFile\<rparr>"
    by blast
  from p cs u0 r0 have "\<exists>plan'.
        activePlans ?sv' ''plan'' = Some plan'
        \<and> plan_changes plan' = [badDiffUpdate\<lparr>applyMethod := ReplaceFile\<rparr>]
        \<and> applyUpdate ''/w'' Map.empty (plan_changes plan' ! 0)
            = writeFile ''/w'' Map.empty ''src/b.ts'' ''new''
        \<and> (\<exists>plan''.
              activePlans (snd (applyPlanRoute ''/w'' ''plan'' applyAll ''txn2'' ?sv')) ''plan''
                = Some plan''
              \<and> plan_changes plan'' ! 0 = badDiffUpdate\<lparr>applyMethod := ReplaceFile\<rparr>)"
    by - (rule exI [of _ plan'], intro conjI)
  with plan i sel m d bad al ex show ?thesis by (intro conjI)
qed

section \<open>Properties of plan validation\<close>






lemma validatePlan_overflow:
  "searchOverflows frames (plan_steps response) \<Longrightarrow>
   validatePlan root fs frames response
     = \<lparr>plan_valid = False, plan_errors = [''Internal validation error'']\<rparr>"
  by (cases "hasCircularDependencies frames (plan_steps response)")
     (simp_all add: validatePlan_def searchOverflows_def Let_def)


lemma depGraphI:
  "s \<in> set ss \<Longrightarrow> d \<in> set (dependencies s) \<Longrightarrow> (step_id s, d) \<in> depGraph ss"
  by (auto simp: depGraph_def)

subsection \<open>Plans deeper than the call stack\<close>

lemma stepName_inj: "stepName i = stepName j \<longleftrightarrow> i = j"
proof
  assume "stepName i = stepName j"
  then have "length (stepName i) = length (stepName j)" by simp
  then show "i = j" by (simp add: stepName_def)
qed simp

lemma pathSteps_ids: "map step_id (pathSteps n lastDeps) = map stepName [0..<n]"
  by (simp add: pathSteps_def comp_def)

lemma pathSteps_distinct: "distinct (map step_id (pathSteps n lastDeps))"
  by (simp add: pathSteps_ids distinct_map inj_on_def stepName_inj)

lemma pathSteps_find:
  assumes "i < n"
  shows "find (\<lambda>s. step_id s = stepName i) (pathSteps n lastDeps)
     = Some \<lparr>step_id = stepName i, dependencies = (if Suc i = n then lastDeps else [stepName (Suc i)])\<rparr>"
proof -
  have "\<exists>k < length (pathSteps n lastDeps).
      step_id (pathSteps n lastDeps ! k) = stepName i
      \<and> \<lparr>step_id = stepName i, dependencies = (if Suc i = n then lastDeps else [stepName (Suc i)])\<rparr>
          = pathSteps n lastDeps ! k
      \<and> (\<forall>j < k. \<not> step_id (pathSteps n lastDeps ! j) = stepName i)"
    using assms by (intro exI [of _ i]) (simp add: pathSteps_def stepName_inj)
  then show ?thesis by (simp only: find_Some_iff)
qed

lemma pathSteps_hasCycle_overflow:
  "frames + i < n \<Longrightarrow> visited \<union> recursionStack \<subseteq> stepName ` {..<i} \<Longrightarrow>
   hasCycle (pathSteps n lastDeps) frames (stepName i) (visited, recursionStack) = Inl RangeError"
proof (induction frames arbitrary: i visited recursionStack)
  case 0
  then show ?case by simp
next
  case (Suc frames)
  from Suc.prems(2) have notstack: "stepName i \<notin> recursionStack" and notvisited: "stepName i \<notin> visited"
    by (auto simp: stepName_inj)
  from Suc.prems(1) have i: "i < n" and next_step: "Suc i \<noteq> n" and room: "frames + Suc i < n"
    by simp_all
  have sets: "insert (stepName i) visited \<union> insert (stepName i) recursionStack \<subseteq> stepName ` {..<Suc i}"
    using Suc.prems(2) by (auto simp: lessThan_Suc)
  have deeper: "hasCycle (pathSteps n lastDeps) frames (stepName (Suc i))
      (insert (stepName i) visited, insert (stepName i) recursionStack) = Inl RangeError"
    using Suc.IH [OF room sets] .
  have "hasCycle (pathSteps n lastDeps) (Suc frames) (stepName i) (visited, recursionStack) =
     (case hasCycleDeps (pathSteps n lastDeps) frames [stepName (Suc i)]
             (insert (stepName i) visited, insert (stepName i) recursionStack) of
        Inl e \<Rightarrow> Inl e
      | Inr r \<Rightarrow> Inr (if fst r then (True, snd r) else (False, fst (snd r), snd (snd r) - {stepName i})))"
    using hasCycle_Suc_new [OF notstack notvisited pathSteps_find [OF i, of lastDeps], of frames] next_step
    by simp
  also have "\<dots> = Inl RangeError"
    by (simp add: hasCycleDeps_Cons deeper)
  finally show ?case .
qed

lemma pathSteps_overflow:
  assumes "frames < n"
  shows "searchOverflows frames (pathSteps n lastDeps)"
proof -
  from assms obtain m where n: "n = Suc m" by (cases n) auto
  have "hasCycle (pathSteps n lastDeps) frames (stepName 0) ({}, {}) = Inl RangeError"
    using assms by (intro pathSteps_hasCycle_overflow) simp_all
  moreover have "pathSteps n lastDeps = pathSteps n lastDeps ! 0 # tl (pathSteps n lastDeps)"
    "step_id (pathSteps n lastDeps ! 0) = stepName 0"
    unfolding n by (simp_all add: pathSteps_def upt_rec [of 0])
  ultimately have "hasCycleFrom (pathSteps n lastDeps) frames (pathSteps n lastDeps) ({}, {}) = Inl RangeError"
    by (metis (no_types, lifting) hasCycleFrom.simps(2) old.sum.simps(5))
  then show ?thesis
    by (simp add: searchOverflows_def hasCircularDependencies_def)
qed

lemma pathSteps_edge:
  "Suc i < n \<Longrightarrow> (stepName i, stepName (Suc i)) \<in> depGraph (pathSteps n lastDeps)"
proof -
  assume "Suc i < n"
  then have "\<lparr>step_id = stepName i, dependencies = [stepName (Suc i)]\<rparr> \<in> set (pathSteps n lastDeps)"
    by (auto simp: pathSteps_def intro!: image_eqI [where x = i])
  from depGraphI [OF this, of "stepName (Suc i)"] show ?thesis by simp
qed

lemma pathSteps_reach:
  "i < n \<Longrightarrow> (stepName 0, stepName i) \<in> (depGraph (pathSteps n lastDeps))\<^sup>*"
proof (induction i)
  case 0
  show ?case by simp
next
  case (Suc i)
  then have "(stepName 0, stepName i) \<in> (depGraph (pathSteps n lastDeps))\<^sup>*" by simp
  with pathSteps_edge [OF Suc.prems] show ?case
    by (rule rtrancl_into_rtrancl [rotated])
qed

lemma ring_cyclic: "cyclic (pathSteps (Suc m) [stepName 0])"
proof -
  have "(stepName m, stepName 0) \<in> depGraph (pathSteps (Suc m) [stepName 0])"
  proof -
    have "\<lparr>step_id = stepName m, dependencies = [stepName 0]\<rparr> \<in> set (pathSteps (Suc m) [stepName 0])"
      by (auto simp: pathSteps_def intro!: image_eqI [where x = m])
    from depGraphI [OF this, of "stepName 0"] show ?thesis by simp
  qed
  with pathSteps_reach [of m "Suc m" "[stepName 0]"]
  have "(stepName 0, stepName 0) \<in> (depGraph (pathSteps (Suc m) [stepName 0]))\<^sup>+"
    by (simp add: rtrancl_into_trancl1)
  then show ?thesis unfolding cyclic_def by blast
qed

lemma chain_edges:
  "(x, y) \<in> depGraph (pathSteps n []) \<Longrightarrow> \<exists>i j. x = stepName i \<and> y = stepName j \<and> i < j \<and> j < n"
proof -
  assume "(x, y) \<in> depGraph (pathSteps n [])"
  then obtain i where "i < n" "Suc i \<noteq> n" "x = stepName i" "y = stepName (Suc i)"
    by (auto simp: depGraph_def pathSteps_def split: if_splits)
  then have "x = stepName i \<and> y = stepName (Suc i) \<and> i < Suc i \<and> Suc i < n" by simp
  then show ?thesis by blast
qed

lemma chain_paths:
  "(x, y) \<in> (depGraph (pathSteps n []))\<^sup>+ \<Longrightarrow> \<exists>i j. x = stepName i \<and> y = stepName j \<and> i < j \<and> j < n"
proof (induction rule: trancl_induct)
  case (base y)
  then show ?case by (rule chain_edges)
next
  case (step y z)
  from step.IH obtain i j where 1: "x = stepName i" "y = stepName j" "i < j" by blast
  from chain_edges [OF step.hyps(2)] obtain j' k where 2: "y = stepName j'" "z = stepName k" "j' < k" "k < n"
    by blast
  from 1 2 have "j = j'" by (simp add: stepName_inj)
  with 1 2 show ?case by (intro exI [of _ i] exI [of _ k]) simp
qed

lemma chain_acyclic: "\<not> cyclic (pathSteps n [])"
  using chain_paths [of _ _ n] by (fastforce simp: cyclic_def stepName_inj)

lemma chain_no_dangling: "\<not> danglingDependency (pathSteps n [])"
proof -
  have "d \<in> set (map step_id (pathSteps n []))"
    if "step \<in> set (pathSteps n [])" "d \<in> set (dependencies step)" for step d
  proof -
    from that have "(step_id step, d) \<in> depGraph (pathSteps n [])" by (rule depGraphI)
    from chain_edges [OF this] obtain j where "d = stepName j" "j < n" by blast
    then show ?thesis by (simp add: pathSteps_ids)
  qed
  then show ?thesis unfolding danglingDependency_def by blast
qed

text \<open>
  Whatever room the call stack has, there is an acyclic chain and there is a ring, each
  of steps with distinct ids, that the cycle check cannot finish: a path of more steps
  than the stack has room for activations of \<open>hasCycle\<close>. \<open>validatePlan\<close> answers both
  with the error of its \<open>catch\<close> branch.
\<close>

lemma validatePlan_deep_chain:
  assumes "frames < n"
  shows "distinct (map step_id (pathSteps n []))"
    and "\<not> danglingDependency (pathSteps n [])"
    and "\<not> cyclic (pathSteps n [])"
    and "validatePlan root fs frames (planWith (pathSteps n []) cs)
           = \<lparr>plan_valid = False, plan_errors = [''Internal validation error'']\<rparr>"
  using pathSteps_overflow [OF assms, of "[]"]
  by (simp_all add: pathSteps_distinct chain_no_dangling chain_acyclic validatePlan_overflow planWith_def)

lemma validatePlan_deep_ring:
  assumes "frames < Suc m"
  shows "distinct (map step_id (pathSteps (Suc m) [stepName 0]))"
    and "cyclic (pathSteps (Suc m) [stepName 0])"
    and "validatePlan root fs frames (planWith (pathSteps (Suc m) [stepName 0]) cs)
           = \<lparr>plan_valid = False, plan_errors = [''Internal validation error'']\<rparr>"
  using pathSteps_overflow [OF assms, of "[stepName 0]"]
  by (simp_all add: pathSteps_distinct ring_cyclic validatePlan_overflow planWith_def)

subsection \<open>When a plan is invalid\<close>





subsection \<open>Cyclic plans\<close>








end
